theory Spec2Isabelle
  imports Complex_Main
begin

section \<open>JavaScript numbers\<close>

text \<open>
  The board engine of \<^verbatim>\<open>components/PuzzleBoard\<close> computes with JavaScript numbers.
  They are embedded as exact reals extended with the three special values that IEEE
  arithmetic produces on a division by zero: rounding and overflow are left out, the
  values \<open>Infinity\<close>, \<open>-Infinity\<close> and \<open>NaN\<close> are kept, with the rules by which JavaScript
  propagates them. Every denominator of this program (an image height, a client height,
  a bounding-rectangle extent, an aspect ratio of such, a grid size) is a non-negative
  quantity, so a zero denominator is the positive zero and \<open>a / 0\<close> has the sign of \<open>a\<close>.
\<close>

datatype number = Num real | PosInf | NegInf | NaN

fun neg :: "number \<Rightarrow> number" where
  "neg (Num a) = Num (- a)"
| "neg PosInf = NegInf"
| "neg NegInf = PosInf"
| "neg NaN = NaN"

instantiation number :: "{plus, minus, times, inverse, ord}"
begin

fun plus_number :: "number \<Rightarrow> number \<Rightarrow> number" where
  "plus_number (Num a) (Num b) = Num (a + b)"
| "plus_number NaN _ = NaN"
| "plus_number _ NaN = NaN"
| "plus_number PosInf NegInf = NaN"
| "plus_number NegInf PosInf = NaN"
| "plus_number PosInf _ = PosInf"
| "plus_number _ PosInf = PosInf"
| "plus_number NegInf _ = NegInf"
| "plus_number _ NegInf = NegInf"

definition minus_number :: "number \<Rightarrow> number \<Rightarrow> number" where
  "minus_number a b = a + neg b"

fun times_number :: "number \<Rightarrow> number \<Rightarrow> number" where
  "times_number (Num a) (Num b) = Num (a * b)"
| "times_number NaN _ = NaN"
| "times_number _ NaN = NaN"
| "times_number PosInf (Num b) = (if b = 0 then NaN else if 0 < b then PosInf else NegInf)"
| "times_number NegInf (Num b) = (if b = 0 then NaN else if 0 < b then NegInf else PosInf)"
| "times_number (Num a) PosInf = (if a = 0 then NaN else if 0 < a then PosInf else NegInf)"
| "times_number (Num a) NegInf = (if a = 0 then NaN else if 0 < a then NegInf else PosInf)"
| "times_number PosInf PosInf = PosInf"
| "times_number NegInf NegInf = PosInf"
| "times_number PosInf NegInf = NegInf"
| "times_number NegInf PosInf = NegInf"

fun divide_number :: "number \<Rightarrow> number \<Rightarrow> number" where
  "divide_number (Num a) (Num b) =
     (if b \<noteq> 0 then Num (a / b)
      else if a = 0 then NaN else if 0 < a then PosInf else NegInf)"
| "divide_number NaN _ = NaN"
| "divide_number _ NaN = NaN"
| "divide_number (Num a) PosInf = Num 0"
| "divide_number (Num a) NegInf = Num 0"
| "divide_number PosInf (Num b) = (if 0 \<le> b then PosInf else NegInf)"
| "divide_number NegInf (Num b) = (if 0 \<le> b then NegInf else PosInf)"
| "divide_number _ _ = NaN"

definition inverse_number :: "number \<Rightarrow> number" where
  "inverse_number a = divide (Num 1) a"

fun less_number :: "number \<Rightarrow> number \<Rightarrow> bool" where
  "less_number (Num a) (Num b) = (a < b)"
| "less_number NaN _ = False"
| "less_number _ NaN = False"
| "less_number _ NegInf = False"
| "less_number PosInf _ = False"
| "less_number NegInf _ = True"
| "less_number _ PosInf = True"

fun less_eq_number :: "number \<Rightarrow> number \<Rightarrow> bool" where
  "less_eq_number (Num a) (Num b) = (a \<le> b)"
| "less_eq_number NaN _ = False"
| "less_eq_number _ NaN = False"
| "less_eq_number NegInf _ = True"
| "less_eq_number _ PosInf = True"
| "less_eq_number _ _ = False"

instance ..

end

text \<open>\<^verbatim>\<open>Math.max\<close>, \<^verbatim>\<open>Math.min\<close>, \<^verbatim>\<open>Math.sqrt\<close> and \<^verbatim>\<open>Math.pow(_, 2)\<close>.\<close>

definition Math_max :: "number \<Rightarrow> number \<Rightarrow> number" where
  "Math_max a b = (if a = NaN \<or> b = NaN then NaN else if a < b then b else a)"

definition Math_min :: "number \<Rightarrow> number \<Rightarrow> number" where
  "Math_min a b = (if a = NaN \<or> b = NaN then NaN else if b < a then b else a)"

fun Math_sqrt :: "number \<Rightarrow> number" where
  "Math_sqrt (Num a) = (if a < 0 then NaN else Num (sqrt a))"
| "Math_sqrt PosInf = PosInf"
| "Math_sqrt NegInf = NaN"
| "Math_sqrt NaN = NaN"

fun Math_pow2 :: "number \<Rightarrow> number" where
  "Math_pow2 (Num a) = Num (a ^ 2)"
| "Math_pow2 PosInf = PosInf"
| "Math_pow2 NegInf = PosInf"
| "Math_pow2 NaN = NaN"

section \<open>Data model\<close>

text \<open>
  \<^verbatim>\<open>types.ts\<close>: the enum \<^verbatim>\<open>Difficulty\<close> with its numeric values, and the interface
  \<^verbatim>\<open>Piece\<close>. The field \<^verbatim>\<open>id\<close> is named \<open>id_piece\<close> here. The fields \<^verbatim>\<open>id\<close>, \<^verbatim>\<open>row\<close>,
  \<^verbatim>\<open>col\<close> and \<^verbatim>\<open>zIndex\<close> only ever hold integers (loop counters, \<open>0\<close>, a maximum plus
  one); the coordinates are JavaScript numbers.
\<close>

datatype Difficulty = EASY | MEDIUM | HARD | EXPERT

fun grid :: "Difficulty \<Rightarrow> nat" where
  "grid EASY = 3"
| "grid MEDIUM = 4"
| "grid HARD = 6"
| "grid EXPERT = 8"

record Piece =
  id_piece :: nat
  row :: nat
  col :: nat
  currentX :: number
  currentY :: number
  targetX :: number
  targetY :: number
  isLocked :: bool
  zIndex :: int

text \<open>
  \<^verbatim>\<open>Particle\<close> and \<^verbatim>\<open>VisualEffect\<close> of the board component. Their fields \<^verbatim>\<open>x\<close>, \<^verbatim>\<open>y\<close>
  are \<open>px\<close>, \<open>py\<close> for a particle and \<open>ex\<close>, \<open>ey\<close> for an effect; \<^verbatim>\<open>size\<close> is \<open>psize\<close>.
  \<^verbatim>\<open>startTime\<close> holds a value of \<^verbatim>\<open>Date.now()\<close>, an integer count of milliseconds.
\<close>

record Particle =
  px :: number
  py :: number
  vx :: number
  vy :: number
  life :: number
  psize :: number
  color :: string

record VisualEffect =
  ex :: number
  ey :: number
  startTime :: int
  particles :: "Particle list"

text \<open>
  The objects \<^verbatim>\<open>{w, h}\<close> and \<^verbatim>\<open>{x, y}\<close> of the component state, and what the handlers
  read from the DOM: the loaded image, the container and the canvas with its bounding
  client rectangle.
\<close>

record Dim =
  dim_w :: number
  dim_h :: number

record Point =
  pt_x :: number
  pt_y :: number

record Image =
  img_width :: number
  img_height :: number

record Container =
  clientWidth :: number
  clientHeight :: number

record DOMRect =
  rect_left :: number
  rect_top :: number
  rect_width :: number
  rect_height :: number

record Canvas =
  canvas_width :: number
  canvas_height :: number
  getBoundingClientRect :: DOMRect

text \<open>
  The state of one mounted board: the \<^verbatim>\<open>useState\<close> cells of the component, the
  pending \<^verbatim>\<open>setTimeout(onSolved, 800)\<close> timers (each by the time at which it is due) and
  the number of calls made so far to the callbacks \<^verbatim>\<open>onMove\<close> and \<^verbatim>\<open>onSolved\<close>. Every
  handler is taken to run on the committed state, to completion.
\<close>

record PuzzleBoard =
  pieces :: "Piece list"
  activePieceIndex :: "nat option"
  dragOffset :: Point
  boardSize :: Dim
  pieceSize :: Dim
  effects :: "VisualEffect list"
  solvedTimers :: "int list"
  movesFired :: nat
  solvedFired :: nat

definition mountBoard :: PuzzleBoard where
  "mountBoard =
     \<lparr>pieces = [], activePieceIndex = None, dragOffset = \<lparr>pt_x = Num 0, pt_y = Num 0\<rparr>,
      boardSize = \<lparr>dim_w = Num 0, dim_h = Num 0\<rparr>, pieceSize = \<lparr>dim_w = Num 0, dim_h = Num 0\<rparr>,
      effects = [], solvedTimers = [], movesFired = 0, solvedFired = 0\<rparr>"

datatype error = TypeError | SparseArray

section \<open>initGame\<close>

text \<open>
  \<^verbatim>\<open>initGame\<close> is given in three parts: \<open>boardDims\<close> is its choice of \<^verbatim>\<open>bw\<close> and \<^verbatim>\<open>bh\<close>
  by the comparison of the aspect ratios, \<open>pushPiece\<close> the body of its inner loop and
  \<open>scatter\<close> its two loops, which thread the array \<^verbatim>\<open>newPieces\<close> and the count of the
  calls of \<^verbatim>\<open>Math.random()\<close> made so far. \<open>rnd k\<close> is the value of the \<open>k\<close>-th call of
  \<^verbatim>\<open>Math.random()\<close> made by the handler (counted from 0), a real in \<open>[0, 1)\<close>.
\<close>

definition boardDims :: "Image \<Rightarrow> Container \<Rightarrow> Dim" where
  "boardDims imgObj container =
     (let cw = clientWidth container;
          ch = clientHeight container;
          imgAspect = img_width imgObj / img_height imgObj;
          containerAspect = cw / ch;
          fillFactor = Num 0.85
      in if containerAspect > imgAspect
         then (let bh = ch * fillFactor; bw = bh * imgAspect in \<lparr>dim_w = bw, dim_h = bh\<rparr>)
         else (let bw = cw * fillFactor; bh = bw / imgAspect in \<lparr>dim_w = bw, dim_h = bh\<rparr>))"

definition pushPiece ::
  "(nat \<Rightarrow> real) \<Rightarrow> nat \<Rightarrow> number \<Rightarrow> number \<Rightarrow> number \<Rightarrow> number \<Rightarrow> number \<Rightarrow> number \<Rightarrow>
   nat \<Rightarrow> nat \<Rightarrow> Piece list \<times> nat \<Rightarrow> Piece list \<times> nat" where
  "pushPiece rnd difficulty cw ch pw ph boardX boardY r c =
     (\<lambda>(newPieces, k).
        (newPieces @
           [\<lparr>id_piece = r * difficulty + c,
             row = r,
             col = c,
             currentX = Num (rnd k) * (cw - pw),
             currentY = Num (rnd (k + 1)) * (ch - ph),
             targetX = boardX + Num (real c) * pw,
             targetY = boardY + Num (real r) * ph,
             isLocked = False,
             zIndex = int (r * difficulty + c)\<rparr>],
         k + 2))"

definition scatter ::
  "(nat \<Rightarrow> real) \<Rightarrow> nat \<Rightarrow> number \<Rightarrow> number \<Rightarrow> number \<Rightarrow> number \<Rightarrow> number \<Rightarrow> number \<Rightarrow>
   Piece list" where
  "scatter rnd difficulty cw ch pw ph boardX boardY =
     fst (fold (\<lambda>r. fold (\<lambda>c. pushPiece rnd difficulty cw ch pw ph boardX boardY r c)
                        [0..<difficulty])
               [0..<difficulty] ([], 0))"

text \<open>
  The piece that the iteration \<open>(r, c)\<close> of the two loops pushes: the loops call
  \<^verbatim>\<open>Math.random()\<close> twice per piece, so this one gets the calls \<open>2 (r n + c)\<close> and the next.
  The lemma \<open>scatter_concat\<close> shows that the loops build exactly these pieces, row by row.
\<close>

definition newPiece ::
  "(nat \<Rightarrow> real) \<Rightarrow> nat \<Rightarrow> number \<Rightarrow> number \<Rightarrow> number \<Rightarrow> number \<Rightarrow> number \<Rightarrow> number \<Rightarrow>
   nat \<Rightarrow> nat \<Rightarrow> Piece" where
  "newPiece rnd n cw ch pw ph boardX boardY r c =
     \<lparr>id_piece = r * n + c, row = r, col = c,
      currentX = Num (rnd (2 * (r * n + c))) * (cw - pw),
      currentY = Num (rnd (2 * (r * n + c) + 1)) * (ch - ph),
      targetX = boardX + Num (real c) * pw,
      targetY = boardY + Num (real r) * ph,
      isLocked = False,
      zIndex = int (r * n + c)\<rparr>"

definition initGame ::
  "Image option \<Rightarrow> Container option \<Rightarrow> Difficulty \<Rightarrow> (nat \<Rightarrow> real) \<Rightarrow> PuzzleBoard \<Rightarrow> PuzzleBoard" where
  "initGame imgObj containerRef difficulty rnd st =
     (case imgObj of
        None \<Rightarrow> st
      | Some img \<Rightarrow>
          (case containerRef of
             None \<Rightarrow> st
           | Some container \<Rightarrow>
               (let cw = clientWidth container;
                    ch = clientHeight container;
                    bw = dim_w (boardDims img container);
                    bh = dim_h (boardDims img container);
                    pw = bw / Num (real (grid difficulty));
                    ph = bh / Num (real (grid difficulty));
                    boardX = (cw - bw) / Num 2;
                    boardY = (ch - bh) / Num 2;
                    newPieces = scatter rnd (grid difficulty) cw ch pw ph boardX boardY
                in st\<lparr>boardSize := \<lparr>dim_w = bw, dim_h = bh\<rparr>,
                      pieceSize := \<lparr>dim_w = pw, dim_h = ph\<rparr>,
                      pieces := newPieces,
                      effects := []\<rparr>)))"

section \<open>draw: ageing and pruning of the effects\<close>

text \<open>
  Of \<^verbatim>\<open>draw\<close> only the update of \<^verbatim>\<open>effects\<close> changes the state; the canvas calls paint
  and are left out. \<open>now\<close> is the value of \<^verbatim>\<open>Date.now()\<close> read by the call, \<open>hasCtx\<close>
  tells whether \<^verbatim>\<open>getContext('2d')\<close> returned a context.
\<close>

definition ageParticle :: "Particle \<Rightarrow> Particle" where
  "ageParticle p = p\<lparr>px := px p + vx p, py := py p + vy p, life := life p - Num 0.015\<rparr>"

definition draw :: "Canvas option \<Rightarrow> Image option \<Rightarrow> bool \<Rightarrow> int \<Rightarrow> PuzzleBoard \<Rightarrow> PuzzleBoard" where
  "draw canvasRef imgObj hasCtx now st =
     (if canvasRef = None \<or> imgObj = None then st
      else if \<not> hasCtx then st
      else
        (let active = filter (\<lambda>eff. now - startTime eff < 1200) (effects st)
         in st\<lparr>effects := map (\<lambda>eff. eff\<lparr>particles := map ageParticle (particles eff)\<rparr>) active\<rparr>))"

section \<open>Pointer handlers\<close>

text \<open>
  \<open>canvasPoint\<close> is the mapping of client coordinates to canvas coordinates that opens
  \<^verbatim>\<open>handleStart\<close> and \<^verbatim>\<open>handleMove\<close>, and \<open>underPointer\<close> the predicate that \<^verbatim>\<open>handleStart\<close>
  passes to \<^verbatim>\<open>findIndex\<close>. The width and height of the bounding rectangle are those of
  the displayed canvas.
\<close>

fun findIndex :: "('a \<Rightarrow> bool) \<Rightarrow> 'a list \<Rightarrow> nat option" where
  "findIndex P [] = None"
| "findIndex P (a # as) = (if P a then Some 0 else map_option Suc (findIndex P as))"

definition canvasPoint :: "Canvas \<Rightarrow> number \<Rightarrow> number \<Rightarrow> number \<times> number" where
  "canvasPoint canvas clientX clientY =
     (let rect = getBoundingClientRect canvas
      in ((clientX - rect_left rect) * (canvas_width canvas / rect_width rect),
          (clientY - rect_top rect) * (canvas_height canvas / rect_height rect)))"

definition underPointer :: "Dim \<Rightarrow> number \<Rightarrow> number \<Rightarrow> Piece \<Rightarrow> bool" where
  "underPointer ps x y p =
     (\<not> isLocked p \<and> x \<ge> currentX p \<and> x \<le> currentX p + dim_w ps
        \<and> y \<ge> currentY p \<and> y \<le> currentY p + dim_h ps)"

text \<open>
  \<^verbatim>\<open>Array.prototype.sort\<close> is stable; with the comparator \<^verbatim>\<open>b.zIndex - a.zIndex\<close> it
  sorts by descending \<^verbatim>\<open>zIndex\<close>. \<^verbatim>\<open>findIndex\<close> answers \<open>-1\<close> as \<open>None\<close>; reading a field
  of the \<^verbatim>\<open>undefined\<close> that an index out of range gives raises a \<^verbatim>\<open>TypeError\<close>. The
  maximum is taken on a branch where a piece was hit, so the list is not empty there.
\<close>

definition handleStart :: "Canvas option \<Rightarrow> number \<Rightarrow> number \<Rightarrow> PuzzleBoard \<Rightarrow> error + PuzzleBoard" where
  "handleStart canvasRef clientX clientY st =
     (case canvasRef of
        None \<Rightarrow> Inr st
      | Some canvas \<Rightarrow>
          (let (x, y) = canvasPoint canvas clientX clientY;
               sorted = sort_key (\<lambda>p. - zIndex p) (pieces st)
           in case findIndex (underPointer (pieceSize st) x y) sorted of
                None \<Rightarrow> Inr st
              | Some pIdx \<Rightarrow>
                  (case findIndex (\<lambda>p. id_piece p = id_piece (sorted ! pIdx)) (pieces st) of
                     None \<Rightarrow> Inl TypeError
                   | Some realIdx \<Rightarrow>
                       (let maxZ = Max (set (map zIndex (pieces st)))
                        in Inr (st\<lparr>activePieceIndex := Some realIdx,
                                    dragOffset := \<lparr>pt_x = x - currentX (pieces st ! realIdx),
                                                   pt_y = y - currentY (pieces st ! realIdx)\<rparr>,
                                    pieces := (pieces st)[realIdx :=
                                                (pieces st ! realIdx)\<lparr>zIndex := maxZ + 1\<rparr>]\<rparr>)))))"

text \<open>
  With an active index past the end of the array, \<^verbatim>\<open>handleMove\<close> would store an object
  holding only the two coordinates there and leave holes before it: no list of pieces
  represents that, and the model stops with \<open>SparseArray\<close>.
\<close>

definition handleMove :: "Canvas option \<Rightarrow> number \<Rightarrow> number \<Rightarrow> PuzzleBoard \<Rightarrow> error + PuzzleBoard" where
  "handleMove canvasRef clientX clientY st =
     (case activePieceIndex st of
        None \<Rightarrow> Inr st
      | Some i \<Rightarrow>
          (case canvasRef of
             None \<Rightarrow> Inr st
           | Some canvas \<Rightarrow>
               (let (x, y) = canvasPoint canvas clientX clientY
                in if i < length (pieces st)
                   then Inr (st\<lparr>pieces := (pieces st)[i :=
                          (pieces st ! i)
                            \<lparr>currentX := Math_max (Num 0)
                                (Math_min (canvas_width canvas - dim_w (pieceSize st))
                                   (x - pt_x (dragOffset st))),
                             currentY := Math_max (Num 0)
                                (Math_min (canvas_height canvas - dim_h (pieceSize st))
                                   (y - pt_y (dragOffset st)))\<rparr>]\<rparr>)
                   else Inl SparseArray)))"

text \<open>
  The expressions of \<^verbatim>\<open>handleEnd\<close>: the distance \<^verbatim>\<open>dist\<close> of the piece from its target, the
  \<open>k\<close>-th particle of the burst (each particle takes three calls of \<^verbatim>\<open>Math.random()\<close>) and
  the object that replaces the piece when it locks.
\<close>

definition dist :: "Piece \<Rightarrow> number" where
  "dist p = Math_sqrt (Math_pow2 (currentX p - targetX p) + Math_pow2 (currentY p - targetY p))"

definition newParticle :: "Dim \<Rightarrow> Piece \<Rightarrow> (nat \<Rightarrow> real) \<Rightarrow> nat \<Rightarrow> Particle" where
  "newParticle ps p rnd k =
     \<lparr>px = targetX p + dim_w ps / Num 2,
      py = targetY p + dim_h ps / Num 2,
      vx = (Num (rnd (3 * k)) - Num 0.5) * Num 8,
      vy = (Num (rnd (3 * k + 1)) - Num 0.5) * Num 8,
      life = Num 1.0,
      psize = Num 1.5 + Num (rnd (3 * k + 2)) * Num 3,
      color = ''rgba(224, 231, 255, ALPHA)''\<rparr>"

definition lockPiece :: "Piece \<Rightarrow> Piece \<Rightarrow> Piece" where
  "lockPiece p q = q\<lparr>currentX := targetX p, currentY := targetY p, isLocked := True, zIndex := 0\<rparr>"

text \<open>
  \<open>now\<close> is the time of the call: the value of \<^verbatim>\<open>Date.now()\<close> stored in the effect, and
  the time from which the 800 ms of \<^verbatim>\<open>setTimeout\<close> run. \<^verbatim>\<open>playSnapSound\<close> touches the
  audio graph only and is left out.
\<close>

definition handleEnd :: "int \<Rightarrow> (nat \<Rightarrow> real) \<Rightarrow> PuzzleBoard \<Rightarrow> error + PuzzleBoard" where
  "handleEnd now rnd st =
     (case activePieceIndex st of
        None \<Rightarrow> Inr st
      | Some i \<Rightarrow>
          if \<not> i < length (pieces st) then Inl TypeError
          else
            (let p = pieces st ! i;
                 st1 =
                   (if dist p < dim_w (pieceSize st) * Num 0.25
                    then
                      (let newParticles = map (newParticle (pieceSize st) p rnd) [0..<25];
                           next = (pieces st)[i := lockPiece p (pieces st ! i)]
                       in st\<lparr>effects := effects st @
                               [\<lparr>ex = targetX p, ey = targetY p, startTime = now,
                                 particles = newParticles\<rparr>],
                             pieces := next,
                             solvedTimers :=
                               (if list_all isLocked next then solvedTimers st @ [now + 800]
                                else solvedTimers st)\<rparr>)
                    else st)
             in Inr (st1\<lparr>movesFired := movesFired st1 + 1, activePieceIndex := None\<rparr>)))"

text \<open>
  The host's timer queue at time \<open>now\<close>: every pending timer that is due calls
  \<^verbatim>\<open>onSolved\<close> and is gone. The component never calls \<^verbatim>\<open>clearTimeout\<close>.
\<close>

definition fireTimers :: "int \<Rightarrow> PuzzleBoard \<Rightarrow> PuzzleBoard" where
  "fireTimers now st =
     st\<lparr>solvedTimers := filter (\<lambda>t. now < t) (solvedTimers st),
        solvedFired := solvedFired st + length (filter (\<lambda>t. t \<le> now) (solvedTimers st))\<rparr>"

section \<open>Input events and reachable states\<close>

text \<open>
  The canvas wires mouse-down and touch-start to \<^verbatim>\<open>handleStart\<close>, mouse-move and touch-move
  to \<^verbatim>\<open>handleMove\<close>, and mouse-up, mouse-leave and touch-end to \<^verbatim>\<open>handleEnd\<close>.
\<close>

datatype event =
  PointerDown "Canvas option" number number
| PointerMove "Canvas option" number number
| PointerUp int "nat \<Rightarrow> real"

fun input :: "event \<Rightarrow> PuzzleBoard \<Rightarrow> error + PuzzleBoard" where
  "input (PointerDown canvasRef clientX clientY) st = handleStart canvasRef clientX clientY st"
| "input (PointerMove canvasRef clientX clientY) st = handleMove canvasRef clientX clientY st"
| "input (PointerUp now rnd) st = handleEnd now rnd st"

fun inputs :: "event list \<Rightarrow> PuzzleBoard \<Rightarrow> error + PuzzleBoard" where
  "inputs [] st = Inr st"
| "inputs (ev # evs) st = (case input ev st of Inl e \<Rightarrow> Inl e | Inr st' \<Rightarrow> inputs evs st')"

text \<open>
  The states of a mounted board of difficulty \<open>d\<close> (the props \<^verbatim>\<open>image\<close> and \<^verbatim>\<open>difficulty\<close>
  are fixed while the component is mounted): it starts from \<open>mountBoard\<close>; \<^verbatim>\<open>initGame\<close>
  runs when the image has loaded and on every resize of the window; pointer events,
  animation frames and due timers come in any order.
\<close>

inductive reachable :: "Difficulty \<Rightarrow> PuzzleBoard \<Rightarrow> bool" for d where
  mount: "reachable d mountBoard"
| init: "reachable d st \<Longrightarrow> reachable d (initGame imgObj containerRef d rnd st)"
| pointer: "reachable d st \<Longrightarrow> input ev st = Inr st' \<Longrightarrow> reachable d st'"
| frame: "reachable d st \<Longrightarrow> reachable d (draw canvasRef imgObj hasCtx now st)"
| timers: "reachable d st \<Longrightarrow> reachable d (fireTimers now st)"

text \<open>
  What happens to a mounted board between two runs of \<^verbatim>\<open>initGame\<close>: pointer events,
  animation frames and runs of the timer queue. \<open>fireTimes\<close> lists the times at which the
  queue ran, and \<open>firedBy steps t\<close> tells whether it ran at or after the time \<open>t\<close>.
\<close>

datatype step =
  Pointer event
| Frame "Canvas option" "Image option" bool int
| Timers int

fun advance :: "step \<Rightarrow> PuzzleBoard \<Rightarrow> error + PuzzleBoard" where
  "advance (Pointer ev) st = input ev st"
| "advance (Frame canvasRef imgObj hasCtx now) st = Inr (draw canvasRef imgObj hasCtx now st)"
| "advance (Timers now) st = Inr (fireTimers now st)"

fun run :: "step list \<Rightarrow> PuzzleBoard \<Rightarrow> error + PuzzleBoard" where
  "run [] st = Inr st"
| "run (s # ss) st = (case advance s st of Inl e \<Rightarrow> Inl e | Inr st' \<Rightarrow> run ss st')"

fun fireTimes :: "step list \<Rightarrow> int list" where
  "fireTimes [] = []"
| "fireTimes (Timers now # ss) = now # fireTimes ss"
| "fireTimes (s # ss) = fireTimes ss"

definition firedBy :: "step list \<Rightarrow> int \<Rightarrow> bool" where
  "firedBy steps t = list_ex (\<lambda>now. t \<le> now) (fireTimes steps)"

text \<open>
  What every reachable state satisfies (lemma \<open>reachable_inv\<close>): the board is empty or has
  its \<open>n\<^sup>2\<close> pieces, ids are distinct, and the active index, when set, points at an
  unlocked piece of the array.
\<close>

definition boardInv :: "Difficulty \<Rightarrow> PuzzleBoard \<Rightarrow> bool" where
  "boardInv d st =
     ((pieces st = [] \<or> length (pieces st) = grid d * grid d)
      \<and> distinct (map id_piece (pieces st))
      \<and> (case activePieceIndex st of
            None \<Rightarrow> True
          | Some i \<Rightarrow> i < length (pieces st) \<and> \<not> isLocked (pieces st ! i)))"

definition lockedKept :: "PuzzleBoard \<Rightarrow> PuzzleBoard \<Rightarrow> bool" where
  "lockedKept st st' =
     (length (pieces st') = length (pieces st)
      \<and> (\<forall>i < length (pieces st). isLocked (pieces st ! i) \<longrightarrow> pieces st' ! i = pieces st ! i))"

text \<open>
  In every reachable state the life of every particle is a real number at most 1 (lemma
  \<open>reachable_lifeBounded\<close>).
\<close>

definition lifeBounded :: "PuzzleBoard \<Rightarrow> bool" where
  "lifeBounded st =
     (\<forall>eff \<in> set (effects st). \<forall>p \<in> set (particles eff). \<exists>l \<le> 1. life p = Num l)"

section \<open>Example boards\<close>

text \<open>Two random sources: \<^verbatim>\<open>Math.random()\<close> answering always 0, and always one half.\<close>

definition zeroRandom :: "nat \<Rightarrow> real" where
  "zeroRandom k = 0"

definition halfRandom :: "nat \<Rightarrow> real" where
  "halfRandom k = 1 / 2"

text \<open>
  One piece of a board with pieces 100 wide whose target is \<open>(200, 200)\<close>, being dragged:
  released at \<open>(195, 195)\<close>, about 7 from the target, and at \<open>(50, 50)\<close>, about 212 away.
\<close>

definition snapBoard :: PuzzleBoard where
  "snapBoard =
     mountBoard\<lparr>pieces := [\<lparr>id_piece = 0, row = 0, col = 0, currentX = Num 195,
                   currentY = Num 195, targetX = Num 200, targetY = Num 200,
                   isLocked = False, zIndex = 0\<rparr>],
       activePieceIndex := Some 0, pieceSize := \<lparr>dim_w = Num 100, dim_h = Num 100\<rparr>\<rparr>"

definition farBoard :: PuzzleBoard where
  "farBoard =
     mountBoard\<lparr>pieces := [\<lparr>id_piece = 0, row = 0, col = 0, currentX = Num 50,
                   currentY = Num 50, targetX = Num 200, targetY = Num 200,
                   isLocked = False, zIndex = 0\<rparr>],
       activePieceIndex := Some 0, pieceSize := \<lparr>dim_w = Num 100, dim_h = Num 100\<rparr>\<rparr>"

text \<open>
  A board of the easy grid for a square image in a container of 1200 by 1200, all
  random numbers being 0: the nine pieces lie stacked at the origin. \<open>placeLast\<close> picks the
  topmost one (id 8), drags it onto its target \<open>(770, 770)\<close> and releases it.
\<close>

definition squareImage :: Image where
  "squareImage = \<lparr>img_width = Num 300, img_height = Num 300\<rparr>"

definition squareContainer :: Container where
  "squareContainer = \<lparr>clientWidth = Num 1200, clientHeight = Num 1200\<rparr>"

definition squareCanvas :: Canvas where
  "squareCanvas =
     \<lparr>canvas_width = Num 1200, canvas_height = Num 1200,
      getBoundingClientRect =
        \<lparr>rect_left = Num 0, rect_top = Num 0, rect_width = Num 1200, rect_height = Num 1200\<rparr>\<rparr>"

definition freshBoard :: PuzzleBoard where
  "freshBoard = initGame (Some squareImage) (Some squareContainer) EASY zeroRandom mountBoard"

definition placeLast :: "event list" where
  "placeLast =
     [PointerDown (Some squareCanvas) (Num 10) (Num 10),
      PointerMove (Some squareCanvas) (Num 780) (Num 780),
      PointerUp 1000 zeroRandom]"

definition playedBoard :: PuzzleBoard where
  "playedBoard = (case inputs placeLast freshBoard of Inr st \<Rightarrow> st | Inl e \<Rightarrow> freshBoard)"

text \<open>One unlocked piece of size 100 by 100 at the origin, nothing being dragged.\<close>

definition edgeBoard :: PuzzleBoard where
  "edgeBoard =
     mountBoard\<lparr>pieces := [\<lparr>id_piece = 0, row = 0, col = 0, currentX = Num 0,
                   currentY = Num 0, targetX = Num 200, targetY = Num 200,
                   isLocked = False, zIndex = 0\<rparr>],
       pieceSize := \<lparr>dim_w = Num 100, dim_h = Num 100\<rparr>\<rparr>"

text \<open>
  Render ticks at the given times, and the 67 ticks that come every 16 ms after the
  release at time 1000 of \<open>placeLast\<close>, the last at 2072.
\<close>

definition frames :: "int list \<Rightarrow> PuzzleBoard \<Rightarrow> PuzzleBoard" where
  "frames ts st = fold (draw (Some squareCanvas) (Some squareImage) True) ts st"

definition everySixteen :: "int list" where
  "everySixteen = map (\<lambda>k. 1000 + 16 * int k) [1..<68]"

text \<open>
  The same board with random numbers that scatter every piece exactly onto its target
  (\<open>90 / 860\<close>, \<open>430 / 860\<close> and \<open>770 / 860\<close> are values of \<^verbatim>\<open>Math.random()\<close>). \<open>tap i\<close> presses
  the pointer on the centre of piece \<open>i\<close> and releases it there, at time \<open>1000 + 100 i\<close>;
  \<open>solveAll\<close> taps the nine pieces in turn, the last release being at time 1800.
\<close>

definition onTarget :: "nat \<Rightarrow> real" where
  "onTarget k =
     (90 + 340 * real (if even k then (k div 2) mod 3 else (k div 2) div 3)) / 860"

definition alignedBoard :: PuzzleBoard where
  "alignedBoard = initGame (Some squareImage) (Some squareContainer) EASY onTarget mountBoard"

definition tap :: "nat \<Rightarrow> event list" where
  "tap i =
     [PointerDown (Some squareCanvas) (Num (260 + 340 * real (i mod 3)))
        (Num (260 + 340 * real (i div 3))),
      PointerUp (1000 + 100 * int i) zeroRandom]"

definition solveAll :: "event list" where
  "solveAll = concat (map tap [0..<9])"

definition solvedBoard :: PuzzleBoard where
  "solvedBoard = (case inputs solveAll alignedBoard of Inr st \<Rightarrow> st | Inl e \<Rightarrow> alignedBoard)"

text \<open>
  The board of \<open>solveAll\<close> just before its last release: eight pieces are locked and the
  pointer is down on the ninth, which lies on its target.
\<close>

definition nearlySolved :: PuzzleBoard where
  "nearlySolved =
     (case inputs (concat (map tap [0..<8]) @ [PointerDown (Some squareCanvas) (Num 940) (Num 940)])
             alignedBoard of
        Inr st \<Rightarrow> st
      | Inl e \<Rightarrow> alignedBoard)"

text \<open>
  The pieces of \<open>alignedBoard\<close> once the first \<open>k\<close> of them have been tapped: these are
  locked, with \<open>zIndex\<close> 0, the others are as \<^verbatim>\<open>initGame\<close> left them.
\<close>

definition tappedPieces :: "nat \<Rightarrow> Piece list" where
  "tappedPieces k =
     map (\<lambda>i. \<lparr>id_piece = i, row = i div 3, col = i mod 3,
               currentX = Num (90 + 340 * real (i mod 3)),
               currentY = Num (90 + 340 * real (i div 3)),
               targetX = Num (90 + 340 * real (i mod 3)),
               targetY = Num (90 + 340 * real (i div 3)),
               isLocked = (i < k), zIndex = (if i < k then 0 else int i)\<rparr>) [0..<9]"

section \<open>Helper lemmas\<close>

lemma Num_minus [simp]: "Num a - Num b = Num (a - b)"
  by (simp add: minus_number_def)

lemma dist_Num:
  "currentX p = Num cx \<Longrightarrow> currentY p = Num cy \<Longrightarrow> targetX p = Num tx \<Longrightarrow>
   targetY p = Num ty \<Longrightarrow> dist p = Num (sqrt ((cx - tx)\<^sup>2 + (cy - ty)\<^sup>2))"
  by (simp add: dist_def not_less)

lemma fold_pushPiece_row:
  "fold (\<lambda>c. pushPiece rnd n cw ch pw ph bx by r c) [0..<m] (acc, 2 * (r * n)) =
     (acc @ map (newPiece rnd n cw ch pw ph bx by r) [0..<m], 2 * (r * n + m))"
  by (induction m) (simp_all add: pushPiece_def newPiece_def algebra_simps)

lemma fold_pushPiece_rows:
  "fold (\<lambda>r. fold (\<lambda>c. pushPiece rnd n cw ch pw ph bx by r c) [0..<n]) [0..<m] ([], 0) =
     (concat (map (\<lambda>r. map (newPiece rnd n cw ch pw ph bx by r) [0..<n]) [0..<m]), 2 * (m * n))"
  by (induction m) (simp_all add: fold_pushPiece_row)

lemma scatter_concat:
  "scatter rnd n cw ch pw ph bx by =
     concat (map (\<lambda>r. map (newPiece rnd n cw ch pw ph bx by r) [0..<n]) [0..<n])"
  by (simp add: scatter_def fold_pushPiece_rows)

lemma set_scatter:
  "set (scatter rnd n cw ch pw ph bx by) =
     {newPiece rnd n cw ch pw ph bx by r c | r c. r < n \<and> c < n}"
  by (auto simp: scatter_concat) blast

lemma length_scatter: "length (scatter rnd n cw ch pw ph bx by) = n * n"
  by (simp add: scatter_concat length_concat comp_def sum_list_triv)

lemma concat_rows_upt:
  "concat (map (\<lambda>r. map (\<lambda>c. r * n + c) [0..<n]) [0..<m]) = [0..<m * n]"
proof (induction m)
  case 0
  then show ?case by simp
next
  case (Suc m)
  have "map (\<lambda>c. m * n + c) [0..<n] = [m * n..<m * n + n]"
    using map_add_upt [of "m * n" n] by (simp add: add.commute)
  then show ?case
    using Suc upt_add_eq_append [of 0 "m * n" n] by (simp add: add.commute)
qed

lemma ids_scatter: "map id_piece (scatter rnd n cw ch pw ph bx by) = [0..<n * n]"
  by (simp add: scatter_concat map_concat comp_def newPiece_def concat_rows_upt)

lemma cells_scatter:
  "map (\<lambda>p. (row p, col p)) (scatter rnd n cw ch pw ph bx by) = List.product [0..<n] [0..<n]"
  by (simp add: scatter_concat map_concat comp_def newPiece_def List.product_concat_map)

lemma boardDims_pos:
  assumes "0 < iw" and "0 < ih" and "0 < a" and "0 < c"
  shows "boardDims \<lparr>img_width = Num iw, img_height = Num ih\<rparr>
           \<lparr>clientWidth = Num a, clientHeight = Num c\<rparr> =
         (if iw / ih < a / c
          then \<lparr>dim_w = Num (c * 0.85 * (iw / ih)), dim_h = Num (c * 0.85)\<rparr>
          else \<lparr>dim_w = Num (a * 0.85), dim_h = Num (a * 0.85 / (iw / ih))\<rparr>)"
  using assms by (simp add: boardDims_def Let_def)

lemma boardDims_degenerate:
  assumes "0 < iw" and "0 < ih" and "0 \<le> a" and "0 \<le> c" and "a = 0 \<or> c = 0"
  shows "boardDims \<lparr>img_width = Num iw, img_height = Num ih\<rparr>
           \<lparr>clientWidth = Num a, clientHeight = Num c\<rparr> = \<lparr>dim_w = Num 0, dim_h = Num 0\<rparr>"
proof -
  have q: "\<not> iw / ih < 0" "iw / ih \<noteq> 0"
    using assms by (simp_all add: not_less)
  show ?thesis
    using assms q by (auto simp add: boardDims_def Let_def)
qed

lemma boardDims_bounds:
  assumes "0 < iw" and "0 < ih" and "0 \<le> a" and "0 \<le> c"
  shows "\<exists>bw bh. boardDims \<lparr>img_width = Num iw, img_height = Num ih\<rparr>
           \<lparr>clientWidth = Num a, clientHeight = Num c\<rparr> = \<lparr>dim_w = Num bw, dim_h = Num bh\<rparr>
           \<and> 0 \<le> bw \<and> bw \<le> 0.85 * a \<and> 0 \<le> bh \<and> bh \<le> 0.85 * c"
proof (cases "a = 0 \<or> c = 0")
  case True
  then show ?thesis using assms boardDims_degenerate [of iw ih a c] by auto
next
  case False
  then have pos: "0 < a" "0 < c" using assms by auto
  define q where "q = iw / ih"
  have q: "0 < q" using assms by (simp add: q_def)
  show ?thesis
  proof (cases "q < a / c")
    case True
    then have "c * q \<le> a"
      using pos by (simp add: pos_less_divide_eq mult.commute)
    then have le: "c * 0.85 * q \<le> 0.85 * a" by simp
    have "boardDims \<lparr>img_width = Num iw, img_height = Num ih\<rparr>
           \<lparr>clientWidth = Num a, clientHeight = Num c\<rparr> =
          \<lparr>dim_w = Num (c * 0.85 * q), dim_h = Num (c * 0.85)\<rparr>"
      using True assms pos boardDims_pos [of iw ih a c] by (simp add: q_def)
    moreover have "0 \<le> c * 0.85 * q" using pos q by simp
    moreover have "0 \<le> c * 0.85" "c * 0.85 \<le> 0.85 * c" using pos by simp_all
    ultimately show ?thesis using le by blast
  next
    case False
    then have "a / c \<le> q" by simp
    then have "a \<le> q * c"
      using pos by (simp add: pos_divide_le_eq)
    then have "a / q \<le> c"
      using q by (simp add: pos_divide_le_eq mult.commute)
    then have le: "a * 0.85 / q \<le> 0.85 * c" by simp
    have "boardDims \<lparr>img_width = Num iw, img_height = Num ih\<rparr>
           \<lparr>clientWidth = Num a, clientHeight = Num c\<rparr> =
          \<lparr>dim_w = Num (a * 0.85), dim_h = Num (a * 0.85 / q)\<rparr>"
      using False assms pos boardDims_pos [of iw ih a c] by (simp add: q_def)
    moreover have "0 \<le> a * 0.85 / q" using pos q by simp
    moreover have "0 \<le> a * 0.85" "a * 0.85 \<le> 0.85 * a" using pos by simp_all
    ultimately show ?thesis using le by blast
  qed
qed

lemma grid_pos: "0 < grid d"
  by (cases d) simp_all

lemma grid_values: "grid d \<in> {3, 4, 6, 8}"
  by (cases d) simp_all

lemma initGame_Num:
  assumes "boardDims \<lparr>img_width = Num iw, img_height = Num ih\<rparr>
             \<lparr>clientWidth = Num a, clientHeight = Num c\<rparr> = \<lparr>dim_w = Num bw, dim_h = Num bh\<rparr>"
  shows "initGame (Some \<lparr>img_width = Num iw, img_height = Num ih\<rparr>)
           (Some \<lparr>clientWidth = Num a, clientHeight = Num c\<rparr>) d rnd st =
         st\<lparr>boardSize := \<lparr>dim_w = Num bw, dim_h = Num bh\<rparr>,
            pieceSize := \<lparr>dim_w = Num (bw / real (grid d)), dim_h = Num (bh / real (grid d))\<rparr>,
            pieces := scatter rnd (grid d) (Num a) (Num c)
                        (Num (bw / real (grid d))) (Num (bh / real (grid d)))
                        (Num ((a - bw) / 2)) (Num ((c - bh) / 2)),
            effects := []\<rparr>"
  using assms grid_pos [of d] by (simp add: initGame_def Let_def)

lemma scatter_in_canvas:
  assumes "p \<in> set (scatter rnd n (Num a) (Num c) (Num pw) (Num ph) bx by)"
    and "\<forall>k. 0 \<le> rnd k \<and> rnd k < 1" and "pw \<le> a" and "ph \<le> c"
  shows "Num 0 \<le> currentX p \<and> currentX p \<le> Num a - Num pw
       \<and> Num 0 \<le> currentY p \<and> currentY p \<le> Num c - Num ph"
proof -
  obtain r k where p: "p = newPiece rnd n (Num a) (Num c) (Num pw) (Num ph) bx by r k"
    using assms(1) by (auto simp: set_scatter)
  have bound: "0 \<le> u * v \<and> u * v \<le> v" if "0 \<le> u" "u < 1" "0 \<le> v" for u v :: real
    using that by (simp add: mult_left_le_one_le)
  have "0 \<le> a - pw" "0 \<le> c - ph" using assms by simp_all
  then show ?thesis
    using assms(2) bound by (simp add: p newPiece_def)
qed

lemma findIndex_None_iff: "findIndex P xs = None \<longleftrightarrow> (\<forall>x \<in> set xs. \<not> P x)"
  by (induction xs) auto

lemma findIndex_SomeD:
  "findIndex P xs = Some k \<Longrightarrow> k < length xs \<and> P (xs ! k) \<and> (\<forall>j < k. \<not> P (xs ! j))"
proof (induction xs arbitrary: k)
  case Nil
  then show ?case by simp
next
  case (Cons a as)
  show ?case
  proof (cases "P a")
    case True
    with Cons.prems show ?thesis by simp
  next
    case False
    with Cons.prems obtain k' where k': "findIndex P as = Some k'" "k = Suc k'"
      by auto
    from Cons.IH [OF k'(1)] False k'(2) show ?thesis
      by (auto simp: nth_Cons split: nat.splits)
  qed
qed

lemma findIndex_sorted_top:
  assumes "findIndex P (sort_key f xs) = Some k" and "q \<in> set xs" and "P q"
  shows "f (sort_key f xs ! k) \<le> f q"
proof -
  let ?s = "sort_key f xs"
  from assms(2) obtain j where j: "j < length ?s" "?s ! j = q"
    by (metis in_set_conv_nth set_sort)
  from findIndex_SomeD [OF assms(1)] have k: "k < length ?s" "\<forall>i < k. \<not> P (?s ! i)"
    by auto
  with j assms(3) have "k \<le> j" by (meson not_le)
  moreover have "sorted (map f ?s)" by simp
  ultimately have "map f ?s ! k \<le> map f ?s ! j"
    using j(1) by (simp add: sorted_iff_nth_mono del: sorted_sort_key)
  then show ?thesis using j k(1) by simp
qed

lemma findIndex_by_id:
  assumes "distinct (map g xs)" and "e \<in> set xs"
  shows "\<exists>r. findIndex (\<lambda>p. g p = g e) xs = Some r \<and> r < length xs \<and> xs ! r = e"
proof -
  from assms(2) have "findIndex (\<lambda>p. g p = g e) xs \<noteq> None"
    by (auto simp: findIndex_None_iff)
  then obtain r where r: "findIndex (\<lambda>p. g p = g e) xs = Some r" by auto
  from findIndex_SomeD [OF r] have "r < length xs" "g (xs ! r) = g e" by auto
  moreover have "inj_on g (set xs)" using assms(1) by (simp add: distinct_map)
  ultimately have "xs ! r = e" using assms(2) by (auto dest: inj_onD)
  with r \<open>r < length xs\<close> show ?thesis by blast
qed

lemma handleStart_miss:
  assumes "canvasPoint canvas clientX clientY = (x, y)"
    and "\<forall>p \<in> set (pieces st). \<not> underPointer (pieceSize st) x y p"
  shows "handleStart (Some canvas) clientX clientY st = Inr st"
proof -
  have "findIndex (underPointer (pieceSize st) x y) (sort_key (\<lambda>p. - zIndex p) (pieces st)) = None"
    using assms(2) by (simp add: findIndex_None_iff)
  then show ?thesis using assms(1) by (simp add: handleStart_def)
qed

lemma handleStart_hit:
  assumes "distinct (map id_piece (pieces st))"
    and "canvasPoint canvas clientX clientY = (x, y)"
    and "\<exists>p \<in> set (pieces st). underPointer (pieceSize st) x y p"
  shows "\<exists>r. r < length (pieces st) \<and> underPointer (pieceSize st) x y (pieces st ! r)
           \<and> (\<forall>q \<in> set (pieces st). underPointer (pieceSize st) x y q \<longrightarrow> zIndex q \<le> zIndex (pieces st ! r))
           \<and> handleStart (Some canvas) clientX clientY st =
               Inr (st\<lparr>activePieceIndex := Some r,
                        dragOffset := \<lparr>pt_x = x - currentX (pieces st ! r),
                                       pt_y = y - currentY (pieces st ! r)\<rparr>,
                        pieces := (pieces st)[r := (pieces st ! r)
                           \<lparr>zIndex := Max (set (map zIndex (pieces st))) + 1\<rparr>]\<rparr>)"
proof -
  let ?P = "underPointer (pieceSize st) x y"
  let ?s = "sort_key (\<lambda>p. - zIndex p) (pieces st)"
  from assms(3) have "findIndex ?P ?s \<noteq> None" by (simp add: findIndex_None_iff)
  then obtain k where k: "findIndex ?P ?s = Some k" by auto
  from findIndex_SomeD [OF k] have sk: "k < length ?s" "?P (?s ! k)" by auto
  then have mem: "?s ! k \<in> set (pieces st)" by (metis nth_mem set_sort)
  from findIndex_by_id [OF assms(1) mem] obtain r where
    r: "findIndex (\<lambda>p. id_piece p = id_piece (?s ! k)) (pieces st) = Some r"
       "r < length (pieces st)" "pieces st ! r = ?s ! k" by blast
  have top: "zIndex q \<le> zIndex (pieces st ! r)" if "q \<in> set (pieces st)" "?P q" for q
    using findIndex_sorted_top [OF k that] r(3) by simp
  have "handleStart (Some canvas) clientX clientY st =
               Inr (st\<lparr>activePieceIndex := Some r,
                        dragOffset := \<lparr>pt_x = x - currentX (pieces st ! r),
                                       pt_y = y - currentY (pieces st ! r)\<rparr>,
                        pieces := (pieces st)[r := (pieces st ! r)
                           \<lparr>zIndex := Max (set (map zIndex (pieces st))) + 1\<rparr>]\<rparr>)"
    using assms(2) k r(1) by (simp add: handleStart_def Let_def)
  with r(2,3) sk(2) top show ?thesis by auto
qed

lemma lockedKept_refl: "lockedKept st st"
  by (simp add: lockedKept_def)

lemma lockedKept_trans: "lockedKept st st' \<Longrightarrow> lockedKept st' st'' \<Longrightarrow> lockedKept st st''"
  by (auto simp: lockedKept_def)

lemma map_id_piece_update:
  "i < length ps \<Longrightarrow> id_piece q = id_piece (ps ! i) \<Longrightarrow> map id_piece (ps[i := q]) = map id_piece ps"
  by (simp add: map_update list_update_same_conv)

lemma handleStart_inv:
  assumes "boardInv d st"
  shows "\<exists>st'. handleStart canvasRef clientX clientY st = Inr st' \<and> boardInv d st' \<and> lockedKept st st'"
proof (cases canvasRef)
  case None
  then show ?thesis using assms by (simp add: handleStart_def lockedKept_refl)
next
  case (Some canvas)
  obtain x y where xy: "canvasPoint canvas clientX clientY = (x, y)" by force
  show ?thesis
  proof (cases "\<exists>p \<in> set (pieces st). underPointer (pieceSize st) x y p")
    case False
    then show ?thesis
      using handleStart_miss [OF xy] assms Some by (simp add: lockedKept_refl)
  next
    case True
    from assms have dist: "distinct (map id_piece (pieces st))" by (simp add: boardInv_def)
    from handleStart_hit [OF dist xy True] obtain r where
      r: "r < length (pieces st)" "underPointer (pieceSize st) x y (pieces st ! r)"
      and eq: "handleStart (Some canvas) clientX clientY st =
               Inr (st\<lparr>activePieceIndex := Some r,
                        dragOffset := \<lparr>pt_x = x - currentX (pieces st ! r),
                                       pt_y = y - currentY (pieces st ! r)\<rparr>,
                        pieces := (pieces st)[r := (pieces st ! r)
                           \<lparr>zIndex := Max (set (map zIndex (pieces st))) + 1\<rparr>]\<rparr>)"
      by blast
    have unl: "\<not> isLocked (pieces st ! r)" using r(2) by (simp add: underPointer_def)
    have "boardInv d (st\<lparr>activePieceIndex := Some r,
                        dragOffset := \<lparr>pt_x = x - currentX (pieces st ! r),
                                       pt_y = y - currentY (pieces st ! r)\<rparr>,
                        pieces := (pieces st)[r := (pieces st ! r)
                           \<lparr>zIndex := Max (set (map zIndex (pieces st))) + 1\<rparr>]\<rparr>)"
      using assms r(1) unl by (auto simp: boardInv_def map_id_piece_update)
    moreover have "lockedKept st (st\<lparr>activePieceIndex := Some r,
                        dragOffset := \<lparr>pt_x = x - currentX (pieces st ! r),
                                       pt_y = y - currentY (pieces st ! r)\<rparr>,
                        pieces := (pieces st)[r := (pieces st ! r)
                           \<lparr>zIndex := Max (set (map zIndex (pieces st))) + 1\<rparr>]\<rparr>)"
      using unl r(1) by (auto simp: lockedKept_def nth_list_update)
    ultimately show ?thesis using eq Some by simp
  qed
qed

lemma handleMove_inv:
  assumes "boardInv d st"
  shows "\<exists>st'. handleMove canvasRef clientX clientY st = Inr st' \<and> boardInv d st' \<and> lockedKept st st'"
proof (cases "activePieceIndex st")
  case None
  then show ?thesis using assms by (simp add: handleMove_def lockedKept_refl)
next
  case (Some i)
  with assms have i: "i < length (pieces st)" "\<not> isLocked (pieces st ! i)"
    by (simp_all add: boardInv_def)
  show ?thesis
  proof (cases canvasRef)
    case None
    then show ?thesis using assms Some by (simp add: handleMove_def lockedKept_refl)
  next
    case (Some canvas)
    then show ?thesis
      using assms i \<open>activePieceIndex st = Some i\<close>
      by (auto simp: handleMove_def boardInv_def lockedKept_def map_id_piece_update
          nth_list_update split: prod.splits)
  qed
qed

lemma handleEnd_inv:
  assumes "boardInv d st"
  shows "\<exists>st'. handleEnd now rnd st = Inr st' \<and> boardInv d st' \<and> lockedKept st st'"
proof (cases "activePieceIndex st")
  case None
  then show ?thesis using assms by (simp add: handleEnd_def lockedKept_refl)
next
  case (Some i)
  with assms have i: "i < length (pieces st)" "\<not> isLocked (pieces st ! i)"
    by (simp_all add: boardInv_def)
  then show ?thesis
    using assms Some
    by (auto simp: handleEnd_def boardInv_def lockedKept_def map_id_piece_update
        nth_list_update lockPiece_def Let_def)
qed

lemma input_inv:
  assumes "boardInv d st"
  shows "\<exists>st'. input ev st = Inr st' \<and> boardInv d st' \<and> lockedKept st st'"
  using assms handleStart_inv handleMove_inv handleEnd_inv by (cases ev) simp_all

lemma inputs_inv:
  assumes "boardInv d st"
  shows "\<exists>st'. inputs evs st = Inr st' \<and> boardInv d st' \<and> lockedKept st st'"
  using assms
proof (induction evs arbitrary: st)
  case Nil
  then show ?case by (simp add: lockedKept_refl)
next
  case (Cons ev evs)
  from input_inv [OF Cons.prems] obtain st1 where
    st1: "input ev st = Inr st1" "boardInv d st1" "lockedKept st st1" by blast
  from Cons.IH [OF st1(2)] obtain st2 where
    st2: "inputs evs st1 = Inr st2" "boardInv d st2" "lockedKept st1 st2" by blast
  show ?case using st1 st2 lockedKept_trans by auto
qed

lemma initGame_inv:
  assumes "boardInv d st"
  shows "boardInv d (initGame imgObj containerRef d rnd st)"
proof (cases "imgObj = None \<or> containerRef = None")
  case True
  then show ?thesis using assms by (auto simp: initGame_def split: option.splits)
next
  case False
  then obtain img container where "imgObj = Some img" "containerRef = Some container" by auto
  moreover have "i < grid d * grid d" if "activePieceIndex st = Some i" for i
    using that assms by (auto simp: boardInv_def)
  moreover have "\<not> isLocked (scatter rnd n cw ch pw ph bx by ! i)" if "i < n * n"
    for n cw ch pw ph bx "by" i
  proof -
    have "scatter rnd n cw ch pw ph bx by ! i \<in> set (scatter rnd n cw ch pw ph bx by)"
      using that by (simp add: length_scatter)
    then show ?thesis by (auto simp: set_scatter newPiece_def)
  qed
  ultimately show ?thesis
    by (auto simp: initGame_def Let_def boardInv_def length_scatter ids_scatter
        split: option.splits)
qed

lemma draw_keeps_pieces:
  "pieces (draw canvasRef imgObj hasCtx now st) = pieces st"
  "activePieceIndex (draw canvasRef imgObj hasCtx now st) = activePieceIndex st"
  "solvedTimers (draw canvasRef imgObj hasCtx now st) = solvedTimers st"
  "solvedFired (draw canvasRef imgObj hasCtx now st) = solvedFired st"
  by (simp_all add: draw_def Let_def)

lemma fireTimers_keeps_pieces:
  "pieces (fireTimers now st) = pieces st"
  "activePieceIndex (fireTimers now st) = activePieceIndex st"
  by (simp_all add: fireTimers_def)

lemma reachable_inv: "reachable d st \<Longrightarrow> boardInv d st"
proof (induction rule: reachable.induct)
  case mount
  then show ?case by (simp add: boardInv_def mountBoard_def)
next
  case (init st imgObj containerRef rnd)
  then show ?case by (simp add: initGame_inv)
next
  case (pointer st ev st')
  then show ?case using input_inv [of d st ev] by auto
next
  case (frame st canvasRef imgObj hasCtx now)
  then show ?case by (simp add: boardInv_def draw_keeps_pieces cong: option.case_cong)
next
  case (timers st now)
  then show ?case by (simp add: boardInv_def fireTimers_keeps_pieces cong: option.case_cong)
qed

lemma reachable_inputs:
  "reachable d st \<Longrightarrow> inputs evs st = Inr st' \<Longrightarrow> reachable d st'"
proof (induction evs arbitrary: st)
  case Nil
  then show ?case by simp
next
  case (Cons ev evs)
  then show ?case by (auto split: sum.splits intro: reachable.pointer)
qed

lemma freshBoard_pieces:
  "pieces freshBoard = map (\<lambda>i. \<lparr>id_piece = i, row = i div 3, col = i mod 3,
      currentX = Num 0, currentY = Num 0, 
      targetX = Num (90 + 340 * real (i mod 3)), targetY = Num (90 + 340 * real (i div 3)),
      isLocked = False, zIndex = int i\<rparr>) [0..<9]"
  by (simp add: freshBoard_def initGame_def squareImage_def squareContainer_def boardDims_def
        Let_def scatter_concat newPiece_def upt_rec zeroRandom_def)

lemma freshBoard_fields:
  "pieceSize freshBoard = \<lparr>dim_w = Num 340, dim_h = Num 340\<rparr>"
  "activePieceIndex freshBoard = None"
  "effects freshBoard = []"
  "solvedTimers freshBoard = []"
  by (simp_all add: freshBoard_def initGame_def squareImage_def squareContainer_def boardDims_def
        Let_def mountBoard_def)

lemma playedBoard_last:
  "inputs placeLast freshBoard = Inr playedBoard \<and> length (pieces playedBoard) = 9 \<and> isLocked (pieces playedBoard ! 8)
   \<and> currentX (pieces playedBoard ! 8) = Num 770"
  by (simp add: playedBoard_def placeLast_def freshBoard_pieces freshBoard_fields upt_rec handleStart_def handleMove_def handleEnd_def
      canvasPoint_def squareCanvas_def underPointer_def Let_def dist_def lockPiece_def
      Math_max_def Math_min_def)

lemma reachable_playedBoard: "reachable EASY playedBoard"
proof -
  have "reachable EASY freshBoard"
    unfolding freshBoard_def by (rule reachable.init [OF reachable.mount])
  then show ?thesis using playedBoard_last reachable_inputs by blast
qed

lemma life_ageParticle: "life p = Num l \<Longrightarrow> life (ageParticle p) = Num (l - 0.015)"
  by (simp add: ageParticle_def)

lemma life_funpow:
  "life p = Num l \<Longrightarrow> life ((ageParticle ^^ n) p) = Num (l - 0.015 * real n)"
proof (induction n)
  case 0
  then show ?case by simp
next
  case (Suc n)
  from life_ageParticle [OF Suc.IH [OF Suc.prems]] show ?case
    by (simp add: algebra_simps)
qed

lemma draw_effects:
  "effects (draw (Some canvas) (Some img) True now st) =
     map (\<lambda>eff. eff\<lparr>particles := map ageParticle (particles eff)\<rparr>)
       (filter (\<lambda>eff. now - startTime eff < 1200) (effects st))"
  by (simp add: draw_def Let_def)

lemma frames_effects:
  assumes "\<forall>t \<in> set ts. \<forall>eff \<in> set (effects st). t - startTime eff < 1200"
  shows "effects (frames ts st) =
     map (\<lambda>eff. eff\<lparr>particles := map (ageParticle ^^ length ts) (particles eff)\<rparr>) (effects st)"
  using assms
proof (induction ts arbitrary: st)
  case Nil
  then show ?case by (simp add: frames_def)
next
  case (Cons t ts)
  let ?st1 = "draw (Some squareCanvas) (Some squareImage) True t st"
  have keep: "filter (\<lambda>eff. t - startTime eff < 1200) (effects st) = effects st"
    using Cons.prems by simp
  have e1: "effects ?st1 = map (\<lambda>eff. eff\<lparr>particles := map ageParticle (particles eff)\<rparr>) (effects st)"
    by (simp add: draw_effects keep)
  have "\<forall>u \<in> set ts. \<forall>eff \<in> set (effects ?st1). u - startTime eff < 1200"
    using Cons.prems by (auto simp: e1)
  from Cons.IH [OF this] have "effects (frames ts ?st1) =
     map (\<lambda>eff. eff\<lparr>particles := map (ageParticle ^^ length ts) (particles eff)\<rparr>) (effects ?st1)" .
  then show ?case
    by (simp add: frames_def e1 comp_def funpow_swap1)
qed

lemma playedBoard_effects:
  "\<exists>ps. effects playedBoard = [\<lparr>ex = Num 770, ey = Num 770, startTime = 1000, particles = ps\<rparr>]
     \<and> length ps = 25 \<and> (\<forall>p \<in> set ps. life p = Num 1)"
  by (simp add: playedBoard_def placeLast_def freshBoard_pieces freshBoard_fields upt_rec
      handleStart_def handleMove_def handleEnd_def canvasPoint_def squareCanvas_def underPointer_def
      Let_def dist_def lockPiece_def Math_max_def Math_min_def newParticle_def)

lemma handleStart_effects:
  "handleStart canvasRef clientX clientY st = Inr st' \<Longrightarrow>
     effects st' = effects st \<and> solvedTimers st' = solvedTimers st \<and> solvedFired st' = solvedFired st"
  by (auto simp: handleStart_def Let_def split: option.splits prod.splits)

lemma handleMove_effects:
  "handleMove canvasRef clientX clientY st = Inr st' \<Longrightarrow>
     effects st' = effects st \<and> solvedTimers st' = solvedTimers st \<and> solvedFired st' = solvedFired st"
  by (auto simp: handleMove_def Let_def split: option.splits prod.splits if_splits)

lemma handleEnd_effects:
  assumes "handleEnd now rnd st = Inr st'"
  shows "effects st' = effects st
       \<or> (\<exists>e. effects st' = effects st @ [e] \<and> startTime e = now
             \<and> (\<forall>p \<in> set (particles e). life p = Num 1))"
  using assms
  by (auto simp: handleEnd_def Let_def newParticle_def split: option.splits if_splits)

lemma input_effects:
  assumes "input ev st = Inr st'"
  shows "effects st' = effects st
       \<or> (\<exists>e t rnd. ev = PointerUp t rnd \<and> effects st' = effects st @ [e] \<and> startTime e = t
             \<and> (\<forall>p \<in> set (particles e). life p = Num 1))"
proof (cases ev)
  case (PointerDown canvasRef clientX clientY)
  then show ?thesis using assms handleStart_effects by simp
next
  case (PointerMove canvasRef clientX clientY)
  then show ?thesis using assms handleMove_effects by simp
next
  case (PointerUp t rnd)
  then show ?thesis using assms handleEnd_effects [of t rnd st st'] by auto
qed

lemma draw_lifeBounded: "lifeBounded st \<Longrightarrow> lifeBounded (draw canvasRef imgObj hasCtx now st)"
proof -
  assume b: "lifeBounded st"
  have "\<exists>l \<le> 1. life (ageParticle p) = Num l" if "\<exists>l \<le> 1. life p = Num l" for p
  proof -
    from that obtain l where "l \<le> 1" "life p = Num l" by blast
    then have "life (ageParticle p) = Num (l - 0.015)" "l - 0.015 \<le> 1"
      by (simp_all add: life_ageParticle)
    then show ?thesis by blast
  qed
  with b show ?thesis
    by (auto simp: lifeBounded_def draw_def Let_def)
qed

lemma reachable_lifeBounded: "reachable d st \<Longrightarrow> lifeBounded st"
proof (induction rule: reachable.induct)
  case mount
  then show ?case by (simp add: lifeBounded_def mountBoard_def)
next
  case (init st imgObj containerRef rnd)
  then show ?case by (auto simp: lifeBounded_def initGame_def Let_def split: option.splits)
next
  case (pointer st ev st')
  from input_effects [OF pointer.hyps(2)] pointer.IH show ?case
    by (fastforce simp: lifeBounded_def)
next
  case (frame st canvasRef imgObj hasCtx now)
  then show ?case by (simp add: draw_lifeBounded)
next
  case (timers st now)
  then show ?case by (simp add: lifeBounded_def fireTimers_def)
qed

lemma alignedBoard_pieces:
  "pieces alignedBoard = map (\<lambda>i. \<lparr>id_piece = i, row = i div 3, col = i mod 3,
      currentX = Num (90 + 340 * real (i mod 3)), currentY = Num (90 + 340 * real (i div 3)),
      targetX = Num (90 + 340 * real (i mod 3)), targetY = Num (90 + 340 * real (i div 3)),
      isLocked = False, zIndex = int i\<rparr>) [0..<9]"
  by (simp add: alignedBoard_def initGame_def squareImage_def squareContainer_def boardDims_def
        Let_def scatter_concat newPiece_def upt_rec onTarget_def)

lemma alignedBoard_fields:
  "pieceSize alignedBoard = \<lparr>dim_w = Num 340, dim_h = Num 340\<rparr>"
  "activePieceIndex alignedBoard = None"
  "effects alignedBoard = []"
  "solvedTimers alignedBoard = []"
  "solvedFired alignedBoard = 0"
  by (simp_all add: alignedBoard_def initGame_def squareImage_def squareContainer_def boardDims_def
        Let_def mountBoard_def)

lemma upt9: "[0..<9] = [0, 1, 2, 3, 4, 5, 6, 7, 8]"
  by (simp add: upt_rec)

lemma inputs_append:
  "inputs (es @ fs) st = (case inputs es st of Inl e \<Rightarrow> Inl e | Inr st' \<Rightarrow> inputs fs st')"
  by (induction es arbitrary: st) (auto split: sum.splits)

lemma press_release:
  assumes ids: "distinct (map id_piece (pieces st))"
    and point: "canvasPoint canvas clientX clientY = (x, y)"
    and i: "i < length (pieces st)"
    and only: "filter (underPointer (pieceSize st) x y) (pieces st) = [pieces st ! i]"
    and near: "dist (pieces st ! i) < dim_w (pieceSize st) * Num 0.25"
  shows "\<exists>st'. inputs [PointerDown (Some canvas) clientX clientY, PointerUp now rnd] st = Inr st'
           \<and> pieces st' = (pieces st)[i := (pieces st ! i)
                \<lparr>currentX := targetX (pieces st ! i), currentY := targetY (pieces st ! i),
                  isLocked := True, zIndex := 0\<rparr>]
           \<and> pieceSize st' = pieceSize st
           \<and> activePieceIndex st' = None
           \<and> solvedFired st' = solvedFired st
           \<and> solvedTimers st' =
               (if list_all isLocked (pieces st') then solvedTimers st @ [now + 800]
                else solvedTimers st)"
proof -
  let ?P = "underPointer (pieceSize st) x y"
  have hit: "?P (pieces st ! i)"
    using only by (metis filter_eq_ConsD)
  have uniq: "q = pieces st ! i" if "q \<in> set (pieces st)" "?P q" for q
  proof -
    from that have "q \<in> set (filter ?P (pieces st))" by simp
    then show ?thesis by (simp add: only)
  qed
  have "\<exists>p \<in> set (pieces st). ?P p" using hit i by (meson nth_mem)
  from handleStart_hit [OF ids point this] obtain r where
    r: "r < length (pieces st)" "?P (pieces st ! r)"
    and start: "handleStart (Some canvas) clientX clientY st =
               Inr (st\<lparr>activePieceIndex := Some r,
                        dragOffset := \<lparr>pt_x = x - currentX (pieces st ! r),
                                       pt_y = y - currentY (pieces st ! r)\<rparr>,
                        pieces := (pieces st)[r := (pieces st ! r)
                           \<lparr>zIndex := Max (set (map zIndex (pieces st))) + 1\<rparr>]\<rparr>)"
    by blast
  have "pieces st ! r = pieces st ! i" using uniq r by simp
  moreover have "distinct (pieces st)" using ids by (simp add: distinct_map)
  ultimately have ri: "r = i" using r(1) i by (simp add: nth_eq_iff_index_eq)
  have near': "dist ((pieces st ! i)\<lparr>zIndex := z\<rparr>) < dim_w (pieceSize st) * Num 0.25" for z
    using near by (simp add: dist_def)
  show ?thesis
    using start i near' by (simp add: ri handleEnd_def Let_def lockPiece_def)
qed

lemma canvasPoint_square: "canvasPoint squareCanvas (Num a) (Num b) = (Num a, Num b)"
  by (simp add: canvasPoint_def squareCanvas_def)

lemma tappedPieces_step:
  assumes "k < 9"
  shows "distinct (map id_piece (tappedPieces k))
       \<and> filter (underPointer \<lparr>dim_w = Num 340, dim_h = Num 340\<rparr>
            (Num (260 + 340 * real (k mod 3))) (Num (260 + 340 * real (k div 3))))
            (tappedPieces k) = [tappedPieces k ! k]
       \<and> dist (tappedPieces k ! k) < Num 340 * Num 0.25
       \<and> (tappedPieces k)[k := (tappedPieces k ! k)
              \<lparr>currentX := targetX (tappedPieces k ! k), currentY := targetY (tappedPieces k ! k),
                isLocked := True, zIndex := 0\<rparr>] = tappedPieces (Suc k)
       \<and> (list_all isLocked (tappedPieces (Suc k)) \<longleftrightarrow> Suc k = 9)"
proof -
  from assms have "k = 0 \<or> k = 1 \<or> k = 2 \<or> k = 3 \<or> k = 4 \<or> k = 5 \<or> k = 6 \<or> k = 7 \<or> k = 8"
    by arith
  then show ?thesis
    by (elim disjE) (simp_all add: tappedPieces_def upt9 underPointer_def dist_def)
qed

lemma length_tappedPieces: "length (tappedPieces k) = 9"
  by (simp add: tappedPieces_def)

lemma taps_run:
  "k \<le> 9 \<Longrightarrow>
   \<exists>st. inputs (concat (map tap [0..<k])) alignedBoard = Inr st
      \<and> pieces st = tappedPieces k
      \<and> pieceSize st = \<lparr>dim_w = Num 340, dim_h = Num 340\<rparr>
      \<and> activePieceIndex st = None
      \<and> solvedTimers st = (if k = 9 then [2600] else [])
      \<and> solvedFired st = 0"
proof (induction k)
  case 0
  then show ?case
    by (simp add: alignedBoard_pieces alignedBoard_fields tappedPieces_def)
next
  case (Suc k)
  then have k: "k < 9" by simp
  from Suc obtain st where st: "inputs (concat (map tap [0..<k])) alignedBoard = Inr st"
      "pieces st = tappedPieces k" "pieceSize st = \<lparr>dim_w = Num 340, dim_h = Num 340\<rparr>"
      "activePieceIndex st = None" "solvedTimers st = []" "solvedFired st = 0"
    by auto
  note step = tappedPieces_step [OF k]
  have "\<exists>st'. inputs [PointerDown (Some squareCanvas) (Num (260 + 340 * real (k mod 3)))
                        (Num (260 + 340 * real (k div 3))),
                      PointerUp (1000 + 100 * int k) zeroRandom] st = Inr st'
           \<and> pieces st' = (pieces st)[k := (pieces st ! k)
                \<lparr>currentX := targetX (pieces st ! k), currentY := targetY (pieces st ! k),
                  isLocked := True, zIndex := 0\<rparr>]
           \<and> pieceSize st' = pieceSize st
           \<and> activePieceIndex st' = None
           \<and> solvedFired st' = solvedFired st
           \<and> solvedTimers st' =
               (if list_all isLocked (pieces st') then solvedTimers st @ [1000 + 100 * int k + 800]
                else solvedTimers st)"
  proof (rule press_release)
    show "distinct (map id_piece (pieces st))"
      unfolding st(2) using step by blast
    show "canvasPoint squareCanvas (Num (260 + 340 * real (k mod 3)))
            (Num (260 + 340 * real (k div 3))) =
          (Num (260 + 340 * real (k mod 3)), Num (260 + 340 * real (k div 3)))"
      by (rule canvasPoint_square)
    show "k < length (pieces st)"
      using k by (simp add: st(2) length_tappedPieces)
    show "filter (underPointer (pieceSize st) (Num (260 + 340 * real (k mod 3)))
            (Num (260 + 340 * real (k div 3)))) (pieces st) = [pieces st ! k]"
      unfolding st(2,3) using step by blast
    have "dist (tappedPieces k ! k) < Num 340 * Num 0.25"
      using step by blast
    then show "dist (pieces st ! k) < dim_w (pieceSize st) * Num 0.25"
      by (simp add: st(2,3))
  qed
  then obtain st' where st': "inputs (tap k) st = Inr st'"
      "pieces st' = tappedPieces (Suc k)" "pieceSize st' = \<lparr>dim_w = Num 340, dim_h = Num 340\<rparr>"
      "activePieceIndex st' = None" "solvedFired st' = 0"
      "solvedTimers st' = (if Suc k = 9 then [1000 + 100 * int k + 800] else [])"
    using step st(2-6) by (auto simp: tap_def)
  have "inputs (concat (map tap [0..<Suc k])) alignedBoard = Inr st'"
    using st(1) st'(1) by (simp add: inputs_append)
  moreover have "solvedTimers st' = (if Suc k = 9 then [2600] else [])"
    using st'(6) by auto
  ultimately show ?case using st'(2-5) by blast
qed

lemma solvedBoard_facts:
  "inputs solveAll alignedBoard = Inr solvedBoard \<and> length (pieces solvedBoard) = 9
   \<and> list_all isLocked (pieces solvedBoard) \<and> solvedTimers solvedBoard = [2600]
   \<and> solvedFired solvedBoard = 0"
proof -
  from taps_run [of 9] obtain st where st: "inputs solveAll alignedBoard = Inr st"
      "pieces st = tappedPieces 9" "solvedTimers st = [2600]" "solvedFired st = 0"
    by (auto simp: solveAll_def)
  then have "solvedBoard = st" by (simp add: solvedBoard_def)
  with st show ?thesis by (simp add: tappedPieces_def list_all_iff)
qed

lemma handleEnd_timers:
  assumes "boardInv d st" and "handleEnd now rnd st = Inr st'"
  shows "solvedFired st' = solvedFired st
       \<and> solvedTimers st' =
           (if \<not> list_all isLocked (pieces st) \<and> list_all isLocked (pieces st')
            then solvedTimers st @ [now + 800] else solvedTimers st)"
proof (cases "activePieceIndex st")
  case None
  then show ?thesis using assms(2) by (auto simp: handleEnd_def)
next
  case (Some i)
  with assms(1) have i: "i < length (pieces st)" "\<not> isLocked (pieces st ! i)"
    by (simp_all add: boardInv_def)
  then have "\<not> list_all isLocked (pieces st)"
    by (auto simp: list_all_length)
  then show ?thesis
    using assms(2) Some i(1) by (auto simp: handleEnd_def Let_def split: if_splits)
qed

lemma input_all_locked:
  assumes "boardInv d st" and "list_all isLocked (pieces st)"
  shows "input ev st = Inr st"
proof -
  have none: "activePieceIndex st = None"
    using assms by (auto simp: boardInv_def list_all_length split: option.splits)
  show ?thesis
  proof (cases ev)
    case (PointerDown canvasRef clientX clientY)
    show ?thesis
    proof (cases canvasRef)
      case None
      then show ?thesis using PointerDown by (simp add: handleStart_def)
    next
      case (Some canvas)
      obtain x y where xy: "canvasPoint canvas clientX clientY = (x, y)" by force
      have "\<forall>p \<in> set (pieces st). \<not> underPointer (pieceSize st) x y p"
        using assms(2) by (auto simp: underPointer_def list_all_iff)
      from handleStart_miss [OF xy this] Some PointerDown show ?thesis by simp
    qed
  next
    case (PointerMove canvasRef clientX clientY)
    then show ?thesis using none by (simp add: handleMove_def)
  next
    case (PointerUp now rnd)
    then show ?thesis using none by (simp add: handleEnd_def)
  qed
qed

lemma inputs_all_locked:
  assumes "boardInv d st" and "list_all isLocked (pieces st)"
  shows "inputs evs st = Inr st"
  by (induction evs) (simp_all add: input_all_locked [OF assms])

lemma initGame_timers:
  "solvedTimers (initGame imgObj containerRef d rnd st) = solvedTimers st
   \<and> solvedFired (initGame imgObj containerRef d rnd st) = solvedFired st"
  by (simp add: initGame_def Let_def split: option.splits)

lemma reachable_solvedBoard: "reachable EASY solvedBoard"
proof -
  have "reachable EASY alignedBoard"
    unfolding alignedBoard_def by (rule reachable.init [OF reachable.mount])
  then show ?thesis using solvedBoard_facts reachable_inputs by blast
qed

lemma nth_scatter:
  assumes "i < n * n"
  shows "scatter rnd n cw ch pw ph bx by ! i = newPiece rnd n cw ch pw ph bx by (i div n) (i mod n)"
proof -
  let ?ps = "scatter rnd n cw ch pw ph bx by"
  have len: "i < length ?ps" using assms by (simp add: length_scatter)
  then have "?ps ! i \<in> set ?ps" by simp
  then obtain r k where rk: "?ps ! i = newPiece rnd n cw ch pw ph bx by r k" "r < n" "k < n"
    by (auto simp: set_scatter)
  have "id_piece (?ps ! i) = map id_piece ?ps ! i" using len by simp
  also have "\<dots> = i" using assms by (simp add: ids_scatter)
  finally have "r * n + k = i" using rk(1) by (simp add: newPiece_def)
  then have "i div n = r" "i mod n = k" using rk(3) by auto
  then show ?thesis using rk(1) by simp
qed

lemma boardDims_binding:
  assumes "0 < iw" and "0 < ih" and "0 < a" and "0 < c"
    and "boardDims \<lparr>img_width = Num iw, img_height = Num ih\<rparr>
           \<lparr>clientWidth = Num a, clientHeight = Num c\<rparr> = \<lparr>dim_w = Num bw, dim_h = Num bh\<rparr>"
  shows "0 < bw \<and> 0 < bh \<and> bw / bh = iw / ih \<and> (bw = 0.85 * a \<or> bh = 0.85 * c)"
  using assms(5) assms(1-4) boardDims_pos [of iw ih a c] by (auto split: if_splits)

lemma firedBy_simps:
  "firedBy [] t = False"
  "firedBy (Timers now # ss) t = (t \<le> now \<or> firedBy ss t)"
  "firedBy (Pointer ev # ss) t = firedBy ss t"
  "firedBy (Frame canvasRef imgObj hasCtx now # ss) t = firedBy ss t"
  by (simp_all add: firedBy_def)

lemma filter_fired_length:
  "length (filter (\<lambda>t. t \<le> now) ts) + length (filter P (filter (\<lambda>t. now < t) ts)) =
     length (filter (\<lambda>t. t \<le> now \<or> P t) ts)"
  for now :: int
  by (induction ts) auto

lemma filter_unfired:
  "filter (\<lambda>t. \<not> P t) (filter (\<lambda>t. now < t) ts) = filter (\<lambda>t. \<not> (t \<le> now \<or> P t)) ts"
  for now :: int
  by (induction ts) auto

lemma draw_inv: "boardInv d st \<Longrightarrow> boardInv d (draw canvasRef imgObj hasCtx now st)"
  by (simp add: boardInv_def draw_keeps_pieces cong: option.case_cong)

lemma fireTimers_inv: "boardInv d st \<Longrightarrow> boardInv d (fireTimers now st)"
  by (simp add: boardInv_def fireTimers_keeps_pieces cong: option.case_cong)

lemma run_all_locked:
  assumes "boardInv d st" and "list_all isLocked (pieces st)"
  shows "\<exists>st'. run steps st = Inr st' \<and> pieces st' = pieces st
           \<and> solvedFired st' = solvedFired st + length (filter (firedBy steps) (solvedTimers st))
           \<and> solvedTimers st' = filter (\<lambda>t. \<not> firedBy steps t) (solvedTimers st)"
  using assms
proof (induction steps arbitrary: st)
  case Nil
  then show ?case by (simp add: firedBy_simps)
next
  case (Cons s ss)
  show ?case
  proof (cases s)
    case (Pointer ev)
    have "input ev st = Inr st" using input_all_locked [OF Cons.prems] .
    with Cons.IH [OF Cons.prems] Pointer show ?thesis by (simp add: firedBy_simps)
  next
    case (Frame canvasRef imgObj hasCtx now)
    let ?st1 = "draw canvasRef imgObj hasCtx now st"
    have "boardInv d ?st1" "list_all isLocked (pieces ?st1)"
      using Cons.prems by (simp_all add: draw_inv draw_keeps_pieces)
    from Cons.IH [OF this] Frame show ?thesis
      by (simp add: firedBy_simps draw_keeps_pieces)
  next
    case (Timers now)
    let ?st1 = "fireTimers now st"
    have "boardInv d ?st1" "list_all isLocked (pieces ?st1)"
      using Cons.prems by (simp_all add: fireTimers_inv fireTimers_keeps_pieces)
    from Cons.IH [OF this] obtain st' where st': "run ss ?st1 = Inr st'"
        "pieces st' = pieces ?st1"
        "solvedFired st' = solvedFired ?st1 + length (filter (firedBy ss) (solvedTimers ?st1))"
        "solvedTimers st' = filter (\<lambda>t. \<not> firedBy ss t) (solvedTimers ?st1)"
      by blast
    have "solvedFired st' =
        solvedFired st + length (filter (\<lambda>t. t \<le> now \<or> firedBy ss t) (solvedTimers st))"
      using st'(3) filter_fired_length [of now "solvedTimers st" "firedBy ss"]
      by (simp add: fireTimers_def)
    moreover have "solvedTimers st' =
        filter (\<lambda>t. \<not> (t \<le> now \<or> firedBy ss t)) (solvedTimers st)"
      using st'(4) filter_unfired [of "firedBy ss" now "solvedTimers st"]
      by (simp add: fireTimers_def)
    ultimately show ?thesis
      using st'(1,2) Timers by (simp add: firedBy_simps fireTimers_keeps_pieces)
  qed
qed

lemma handleEnd_completes:
  assumes "activePieceIndex st = Some i" and "i < length (pieces st)"
    and "dist (pieces st ! i) < dim_w (pieceSize st) * Num 0.25"
    and "\<forall>j < length (pieces st). j \<noteq> i \<longrightarrow> isLocked (pieces st ! j)"
  shows "\<exists>st'. handleEnd now rnd st = Inr st' \<and> list_all isLocked (pieces st')
           \<and> solvedTimers st' = solvedTimers st @ [now + 800]"
proof -
  have "list_all isLocked ((pieces st)[i := lockPiece (pieces st ! i) (pieces st ! i)])"
    using assms(2,4) by (auto simp: list_all_length nth_list_update lockPiece_def)
  then show ?thesis
    using assms(1-3) by (simp add: handleEnd_def Let_def)
qed

lemma input_timers_exact:
  assumes "boardInv d st" and "input ev st = Inr st'"
  shows "solvedFired st' = solvedFired st
       \<and> solvedTimers st' =
           (case ev of
              PointerUp now rnd \<Rightarrow>
                (if \<not> list_all isLocked (pieces st) \<and> list_all isLocked (pieces st')
                 then solvedTimers st @ [now + 800] else solvedTimers st)
            | _ \<Rightarrow> solvedTimers st)"
proof (cases ev)
  case (PointerDown canvasRef clientX clientY)
  then show ?thesis using assms(2) handleStart_effects by simp
next
  case (PointerMove canvasRef clientX clientY)
  then show ?thesis using assms(2) handleMove_effects by simp
next
  case (PointerUp now rnd)
  then show ?thesis using assms handleEnd_timers [of d st now rnd st'] by simp
qed

lemma press_picks:
  assumes ids: "distinct (map id_piece (pieces st))"
    and point: "canvasPoint canvas clientX clientY = (x, y)"
    and i: "i < length (pieces st)"
    and only: "filter (underPointer (pieceSize st) x y) (pieces st) = [pieces st ! i]"
  shows "handleStart (Some canvas) clientX clientY st =
           Inr (st\<lparr>activePieceIndex := Some i,
                    dragOffset := \<lparr>pt_x = x - currentX (pieces st ! i),
                                   pt_y = y - currentY (pieces st ! i)\<rparr>,
                    pieces := (pieces st)[i := (pieces st ! i)
                       \<lparr>zIndex := Max (set (map zIndex (pieces st))) + 1\<rparr>]\<rparr>)"
proof -
  let ?P = "underPointer (pieceSize st) x y"
  have hit: "?P (pieces st ! i)"
    using only by (metis filter_eq_ConsD)
  have uniq: "q = pieces st ! i" if "q \<in> set (pieces st)" "?P q" for q
  proof -
    from that have "q \<in> set (filter ?P (pieces st))" by simp
    then show ?thesis by (simp add: only)
  qed
  have "\<exists>p \<in> set (pieces st). ?P p" using hit i by (meson nth_mem)
  from handleStart_hit [OF ids point this] obtain r where
    r: "r < length (pieces st)" "?P (pieces st ! r)"
    and start: "handleStart (Some canvas) clientX clientY st =
               Inr (st\<lparr>activePieceIndex := Some r,
                        dragOffset := \<lparr>pt_x = x - currentX (pieces st ! r),
                                       pt_y = y - currentY (pieces st ! r)\<rparr>,
                        pieces := (pieces st)[r := (pieces st ! r)
                           \<lparr>zIndex := Max (set (map zIndex (pieces st))) + 1\<rparr>]\<rparr>)"
    by blast
  have "pieces st ! r = pieces st ! i" using uniq r by simp
  moreover have "distinct (pieces st)" using ids by (simp add: distinct_map)
  ultimately have "r = i" using r(1) i by (simp add: nth_eq_iff_index_eq)
  with start show ?thesis by simp
qed

lemma nearlySolved_facts:
  "reachable EASY nearlySolved
   \<and> activePieceIndex nearlySolved = Some 8
   \<and> solvedTimers nearlySolved = []
   \<and> dist (pieces nearlySolved ! 8) < dim_w (pieceSize nearlySolved) * Num 0.25
   \<and> (\<forall>j < length (pieces nearlySolved). j \<noteq> 8 \<longrightarrow> isLocked (pieces nearlySolved ! j))
   \<and> handleEnd 1800 zeroRandom nearlySolved = Inr solvedBoard"
proof -
  from taps_run [of 8] obtain st where st: "inputs (concat (map tap [0..<8])) alignedBoard = Inr st"
      "pieces st = tappedPieces 8" "pieceSize st = \<lparr>dim_w = Num 340, dim_h = Num 340\<rparr>"
      "solvedTimers st = []"
    by auto
  note step = tappedPieces_step [of 8]
  have press: "handleStart (Some squareCanvas) (Num 940) (Num 940) st =
           Inr (st\<lparr>activePieceIndex := Some 8,
                    dragOffset := \<lparr>pt_x = Num 940 - currentX (pieces st ! 8),
                                   pt_y = Num 940 - currentY (pieces st ! 8)\<rparr>,
                    pieces := (pieces st)[8 := (pieces st ! 8)
                       \<lparr>zIndex := Max (set (map zIndex (pieces st))) + 1\<rparr>]\<rparr>)"
  proof (rule press_picks)
    show "distinct (map id_piece (pieces st))"
      unfolding st(2) using step by simp
    show "canvasPoint squareCanvas (Num 940) (Num 940) = (Num 940, Num 940)"
      by (rule canvasPoint_square)
    show "8 < length (pieces st)"
      by (simp add: st(2) length_tappedPieces)
    show "filter (underPointer (pieceSize st) (Num 940) (Num 940)) (pieces st) = [pieces st ! 8]"
      unfolding st(2,3) using step by simp
  qed
  define st8 where "st8 = st\<lparr>activePieceIndex := Some 8,
                    dragOffset := \<lparr>pt_x = Num 940 - currentX (pieces st ! 8),
                                   pt_y = Num 940 - currentY (pieces st ! 8)\<rparr>,
                    pieces := (pieces st)[8 := (pieces st ! 8)
                       \<lparr>zIndex := Max (set (map zIndex (pieces st))) + 1\<rparr>]\<rparr>"
  have run8: "inputs (concat (map tap [0..<8]) @ [PointerDown (Some squareCanvas) (Num 940) (Num 940)])
          alignedBoard = Inr st8"
    using st(1) press by (simp add: inputs_append st8_def)
  then have eq: "nearlySolved = st8" by (simp add: nearlySolved_def)
  have "reachable EASY alignedBoard"
    unfolding alignedBoard_def by (rule reachable.init [OF reachable.mount])
  then have reach: "reachable EASY st8" using run8 reachable_inputs by blast
  have near: "dist (pieces st8 ! 8) < dim_w (pieceSize st8) * Num 0.25"
  proof -
    have "dist (tappedPieces 8 ! 8) < Num 340 * Num 0.25" using step by simp
    then show ?thesis
      by (simp add: st8_def st(2,3) length_tappedPieces dist_def)
  qed
  have others: "\<forall>j < length (pieces st8). j \<noteq> 8 \<longrightarrow> isLocked (pieces st8 ! j)"
    by (simp add: st8_def st(2) tappedPieces_def)
  have "[0..<9] = [0..<8] @ [8]" by (simp add: upt_rec)
  then have sa: "solveAll = (concat (map tap [0..<8]) @ [PointerDown (Some squareCanvas) (Num 940) (Num 940)])
          @ [PointerUp 1800 zeroRandom]"
    by (simp add: solveAll_def tap_def)
  have "inputs solveAll alignedBoard = Inr solvedBoard"
    using solvedBoard_facts by blast
  then have "inputs [PointerUp 1800 zeroRandom] st8 = Inr solvedBoard"
    unfolding sa
      inputs_append [of "concat (map tap [0..<8]) @ [PointerDown (Some squareCanvas) (Num 940) (Num 940)]"
        "[PointerUp 1800 zeroRandom]"]
      run8
    by simp
  then have last: "handleEnd 1800 zeroRandom st8 = Inr solvedBoard"
    by (simp split: sum.splits)
  show ?thesis
    unfolding eq using reach near others last by (simp add: st8_def st(4))
qed

section \<open>Placement on release\<close>

text \<open>
  Claim C1. A release of the dragged piece at a Euclidean distance from its target
  strictly below a quarter of the piece width puts the piece exactly on its target,
  locks it, sets its \<open>zIndex\<close> to 0 and appends exactly one effect, placed at the target,
  to the list of effects.
\<close>

theorem handleEnd_snaps:
  assumes "activePieceIndex st = Some i" and "i < length (pieces st)"
    and "currentX (pieces st ! i) = Num cx" and "currentY (pieces st ! i) = Num cy"
    and "targetX (pieces st ! i) = Num tx" and "targetY (pieces st ! i) = Num ty"
    and "dim_w (pieceSize st) = Num pw"
    and "sqrt ((cx - tx)\<^sup>2 + (cy - ty)\<^sup>2) < 0.25 * pw"
  shows "\<exists>st' e. handleEnd now rnd st = Inr st'
           \<and> pieces st' = (pieces st)[i := (pieces st ! i)
                \<lparr>currentX := Num tx, currentY := Num ty, isLocked := True, zIndex := 0\<rparr>]
           \<and> effects st' = effects st @ [e]
           \<and> ex e = Num tx \<and> ey e = Num ty \<and> startTime e = now \<and> length (particles e) = 25"
  using assms by (simp add: handleEnd_def dist_Num lockPiece_def Let_def mult.commute)

theorem handleEnd_snaps_witness:
  "\<exists>st' e. handleEnd 1000 zeroRandom snapBoard = Inr st'
           \<and> pieces st' = [\<lparr>id_piece = 0, row = 0, col = 0, currentX = Num 200,
                 currentY = Num 200, targetX = Num 200, targetY = Num 200,
                 isLocked = True, zIndex = 0\<rparr>]
           \<and> effects st' = [e]
           \<and> ex e = Num 200 \<and> ey e = Num 200 \<and> startTime e = 1000 \<and> length (particles e) = 25"
  using handleEnd_snaps [of snapBoard 0 195 195 200 200 100 1000 zeroRandom]
  by (simp add: snapBoard_def mountBoard_def real_less_lsqrt)

text \<open>
  Claim C2. A release of the dragged, unlocked piece at a distance of at least a quarter
  of the piece width leaves it unlocked and where it was released; no piece changes in
  any field and no effect is added.
\<close>

theorem handleEnd_keeps:
  assumes "activePieceIndex st = Some i" and "i < length (pieces st)"
    and "\<not> isLocked (pieces st ! i)"
    and "currentX (pieces st ! i) = Num cx" and "currentY (pieces st ! i) = Num cy"
    and "targetX (pieces st ! i) = Num tx" and "targetY (pieces st ! i) = Num ty"
    and "dim_w (pieceSize st) = Num pw"
    and "sqrt ((cx - tx)\<^sup>2 + (cy - ty)\<^sup>2) \<ge> 0.25 * pw"
  shows "\<exists>st'. handleEnd now rnd st = Inr st'
           \<and> \<not> isLocked (pieces st' ! i)
           \<and> currentX (pieces st' ! i) = Num cx \<and> currentY (pieces st' ! i) = Num cy
           \<and> pieces st' = pieces st
           \<and> effects st' = effects st"
  using assms by (simp add: handleEnd_def dist_Num Let_def mult.commute not_less)

theorem handleEnd_keeps_witness:
  "\<exists>st'. handleEnd 1000 zeroRandom farBoard = Inr st'
           \<and> \<not> isLocked (pieces st' ! 0)
           \<and> currentX (pieces st' ! 0) = Num 50 \<and> currentY (pieces st' ! 0) = Num 50
           \<and> pieces st' = pieces farBoard
           \<and> effects st' = []"
  using handleEnd_keeps [of farBoard 0 50 50 200 200 100 1000 zeroRandom]
  by (simp add: farBoard_def mountBoard_def real_le_rsqrt)

section \<open>Initialization\<close>

text \<open>
  Claim C10. Whenever \<open>initGame\<close> rebuilds the board (the image is loaded and the
  container is mounted), the list of live effects is empty afterwards.
\<close>

theorem initGame_clears_effects:
  "effects (initGame (Some img) (Some container) difficulty rnd st) = []"
  by (simp add: initGame_def Let_def)

text \<open>
  Claim C6. For a loaded image of positive size and a container of non-negative size,
  and a random source with values in \<open>[0, 1)\<close>, initialization at a grid size \<open>n\<close> of 3, 4, 6
  or 8 builds exactly \<open>n\<^sup>2\<close> pieces; their ids are \<open>0, \<dots>, n\<^sup>2 - 1\<close> in this order, their
  cells are the pairs \<open>(row, col)\<close> below \<open>n\<close>, each once, with \<open>id = row n + col\<close>; each
  piece is unlocked, has its id as \<open>zIndex\<close>, and lies with \<open>currentX\<close> between 0 and the
  container width minus the piece width, \<open>currentY\<close> likewise.
\<close>

theorem initGame_pieces:
  assumes "0 < iw" and "0 < ih" and "0 \<le> a" and "0 \<le> c"
    and "\<forall>k. 0 \<le> rnd k \<and> rnd k < 1"
    and "st' = initGame (Some \<lparr>img_width = Num iw, img_height = Num ih\<rparr>)
                 (Some \<lparr>clientWidth = Num a, clientHeight = Num c\<rparr>) difficulty rnd st"
    and "n = grid difficulty"
  shows "n \<in> {3, 4, 6, 8}
       \<and> length (pieces st') = n * n
       \<and> map id_piece (pieces st') = [0..<n * n]
       \<and> map (\<lambda>p. (row p, col p)) (pieces st') = List.product [0..<n] [0..<n]
       \<and> (\<forall>p \<in> set (pieces st').
             id_piece p = row p * n + col p \<and> \<not> isLocked p \<and> zIndex p = int (id_piece p)
           \<and> Num 0 \<le> currentX p \<and> currentX p \<le> Num a - dim_w (pieceSize st')
           \<and> Num 0 \<le> currentY p \<and> currentY p \<le> Num c - dim_h (pieceSize st'))"
proof -
  obtain bw bh where
    dims: "boardDims \<lparr>img_width = Num iw, img_height = Num ih\<rparr>
             \<lparr>clientWidth = Num a, clientHeight = Num c\<rparr> = \<lparr>dim_w = Num bw, dim_h = Num bh\<rparr>"
    and bw: "0 \<le> bw" "bw \<le> 0.85 * a" and bh: "0 \<le> bh" "bh \<le> 0.85 * c"
    using boardDims_bounds [OF assms(1-4)] by blast
  have n: "0 < n" "1 \<le> real n" using grid_pos [of difficulty] assms(7) by simp_all
  have "bw * 1 \<le> bw * real n" "bh * 1 \<le> bh * real n"
    using bw(1) bh(1) n(2) by (simp_all only: mult_left_mono)
  then have "bw / real n \<le> bw" "bh / real n \<le> bh"
    using n(1) by (simp_all add: divide_le_eq)
  then have small: "bw / real n \<le> a" "bh / real n \<le> c"
    using bw bh assms(3,4) by simp_all
  have st': "pieces st' = scatter rnd n (Num a) (Num c) (Num (bw / real n)) (Num (bh / real n))
               (Num ((a - bw) / 2)) (Num ((c - bh) / 2))"
    and ps: "pieceSize st' = \<lparr>dim_w = Num (bw / real n), dim_h = Num (bh / real n)\<rparr>"
    using initGame_Num [OF dims] assms(6,7) by simp_all
  have each: "id_piece p = row p * n + col p \<and> \<not> isLocked p \<and> zIndex p = int (id_piece p)"
    if "p \<in> set (pieces st')" for p
    using that by (auto simp: st' set_scatter newPiece_def)
  show ?thesis
    using grid_values [of difficulty] assms(7) each
      scatter_in_canvas [OF _ assms(5) small]
    by (simp add: st' ps length_scatter ids_scatter cells_scatter)
qed

theorem initGame_pieces_witness:
  "length (pieces (initGame (Some \<lparr>img_width = Num 800, img_height = Num 600\<rparr>)
       (Some \<lparr>clientWidth = Num 1000, clientHeight = Num 700\<rparr>) EASY halfRandom mountBoard)) = 9
   \<and> map id_piece (pieces (initGame (Some \<lparr>img_width = Num 800, img_height = Num 600\<rparr>)
       (Some \<lparr>clientWidth = Num 1000, clientHeight = Num 700\<rparr>) EASY halfRandom mountBoard))
       = [0, 1, 2, 3, 4, 5, 6, 7, 8]
   \<and> zIndex (pieces (initGame (Some \<lparr>img_width = Num 800, img_height = Num 600\<rparr>)
       (Some \<lparr>clientWidth = Num 1000, clientHeight = Num 700\<rparr>) EASY halfRandom mountBoard) ! 4) = 4
   \<and> \<not> isLocked (pieces (initGame (Some \<lparr>img_width = Num 800, img_height = Num 600\<rparr>)
       (Some \<lparr>clientWidth = Num 1000, clientHeight = Num 700\<rparr>) EASY halfRandom mountBoard) ! 4)
   \<and> Num 0 \<le> currentX (pieces (initGame (Some \<lparr>img_width = Num 800, img_height = Num 600\<rparr>)
       (Some \<lparr>clientWidth = Num 1000, clientHeight = Num 700\<rparr>) EASY halfRandom mountBoard) ! 4)"
proof -
  define st' where "st' = initGame (Some \<lparr>img_width = Num 800, img_height = Num 600\<rparr>)
       (Some \<lparr>clientWidth = Num 1000, clientHeight = Num 700\<rparr>) EASY halfRandom mountBoard"
  have all: "length (pieces st') = 9 \<and> map id_piece (pieces st') = [0..<9]
      \<and> (\<forall>p \<in> set (pieces st').
             id_piece p = row p * 3 + col p \<and> \<not> isLocked p \<and> zIndex p = int (id_piece p)
           \<and> Num 0 \<le> currentX p \<and> currentX p \<le> Num 1000 - dim_w (pieceSize st')
           \<and> Num 0 \<le> currentY p \<and> currentY p \<le> Num 700 - dim_h (pieceSize st'))"
    using initGame_pieces [of 800 600 1000 700 halfRandom st' EASY mountBoard 3]
    by (simp add: st'_def halfRandom_def)
  then have mem: "pieces st' ! 4 \<in> set (pieces st')" by simp
  have "id_piece (pieces st' ! 4) = 4"
    using all nth_map [of 4 "pieces st'" id_piece] by simp
  then show ?thesis
    using all mem unfolding st'_def [symmetric] by (simp add: upt_rec)
qed

text \<open>
  Claim C7. For an image and a container of positive size, the board keeps the aspect
  ratio of the image, is at most 0.85 of the container in each dimension and exactly
  0.85 of it in one; initialization builds the \<open>n\<^sup>2\<close> pieces, and the piece at index \<open>i\<close>,
  of row \<open>i div n\<close> and column \<open>i mod n\<close>, has as its target the origin
  \<open>((cw - bw) / 2, (ch - bh) / 2)\<close>, which centres the board, plus its column and row times
  the piece width \<open>bw / n\<close> and height \<open>bh / n\<close>.
\<close>

theorem initGame_geometry:
  assumes "0 < iw" and "0 < ih" and "0 < a" and "0 < c"
    and "st' = initGame (Some \<lparr>img_width = Num iw, img_height = Num ih\<rparr>)
                 (Some \<lparr>clientWidth = Num a, clientHeight = Num c\<rparr>) difficulty rnd st"
    and "n = grid difficulty"
  shows "\<exists>bw bh. boardSize st' = \<lparr>dim_w = Num bw, dim_h = Num bh\<rparr>
           \<and> 0 < bw \<and> 0 < bh \<and> bw / bh = iw / ih
           \<and> bw \<le> 0.85 * a \<and> bh \<le> 0.85 * c
           \<and> (bw = 0.85 * a \<or> bh = 0.85 * c)
           \<and> pieceSize st' = \<lparr>dim_w = Num (bw / real n), dim_h = Num (bh / real n)\<rparr>
           \<and> length (pieces st') = n * n
           \<and> (\<forall>i < n * n.
                 row (pieces st' ! i) = i div n \<and> col (pieces st' ! i) = i mod n
               \<and> targetX (pieces st' ! i) = Num ((a - bw) / 2 + real (i mod n) * (bw / real n))
               \<and> targetY (pieces st' ! i) = Num ((c - bh) / 2 + real (i div n) * (bh / real n)))
           \<and> (\<forall>p \<in> set (pieces st').
                 targetX p = Num ((a - bw) / 2 + real (col p) * (bw / real n))
               \<and> targetY p = Num ((c - bh) / 2 + real (row p) * (bh / real n)))"
proof -
  obtain bw bh where
    dims: "boardDims \<lparr>img_width = Num iw, img_height = Num ih\<rparr>
             \<lparr>clientWidth = Num a, clientHeight = Num c\<rparr> = \<lparr>dim_w = Num bw, dim_h = Num bh\<rparr>"
    and le: "bw \<le> 0.85 * a" "bh \<le> 0.85 * c"
    using boardDims_bounds [of iw ih a c] assms(1-4) by force
  note init = initGame_Num [OF dims, of difficulty rnd st]
  have ratio: "0 < bw \<and> 0 < bh \<and> bw / bh = iw / ih \<and> (bw = 0.85 * a \<or> bh = 0.85 * c)"
    using boardDims_binding [OF assms(1-4) dims] .
  have byset: "targetX p = Num ((a - bw) / 2 + real (col p) * (bw / real n))
               \<and> targetY p = Num ((c - bh) / 2 + real (row p) * (bh / real n))"
    if "p \<in> set (pieces st')" for p
    using that init assms(5,6) by (auto simp: set_scatter newPiece_def)
  have byindex: "row (pieces st' ! i) = i div n \<and> col (pieces st' ! i) = i mod n
               \<and> targetX (pieces st' ! i) = Num ((a - bw) / 2 + real (i mod n) * (bw / real n))
               \<and> targetY (pieces st' ! i) = Num ((c - bh) / 2 + real (i div n) * (bh / real n))"
    if "i < n * n" for i
    using that init assms(5,6) by (simp add: nth_scatter newPiece_def)
  have "boardSize st' = \<lparr>dim_w = Num bw, dim_h = Num bh\<rparr>"
    "pieceSize st' = \<lparr>dim_w = Num (bw / real n), dim_h = Num (bh / real n)\<rparr>"
    "length (pieces st') = n * n"
    using init assms(5,6) by (simp_all add: length_scatter)
  with ratio le byset byindex show ?thesis by blast
qed

theorem initGame_geometry_witness:
  "(\<exists>bw bh. boardSize (initGame (Some \<lparr>img_width = Num 800, img_height = Num 600\<rparr>)
       (Some \<lparr>clientWidth = Num 1000, clientHeight = Num 700\<rparr>) EASY halfRandom mountBoard)
         = \<lparr>dim_w = Num bw, dim_h = Num bh\<rparr>
       \<and> bw / bh = 800 / 600 \<and> bw \<le> 850 \<and> bh \<le> 595)
   \<and> boardSize (initGame (Some \<lparr>img_width = Num 800, img_height = Num 600\<rparr>)
       (Some \<lparr>clientWidth = Num 1000, clientHeight = Num 700\<rparr>) EASY halfRandom mountBoard)
         = \<lparr>dim_w = Num (2380 / 3), dim_h = Num 595\<rparr>
   \<and> length (pieces (initGame (Some \<lparr>img_width = Num 800, img_height = Num 600\<rparr>)
       (Some \<lparr>clientWidth = Num 1000, clientHeight = Num 700\<rparr>) EASY halfRandom mountBoard)) = 9
   \<and> targetX (pieces (initGame (Some \<lparr>img_width = Num 800, img_height = Num 600\<rparr>)
       (Some \<lparr>clientWidth = Num 1000, clientHeight = Num 700\<rparr>) EASY halfRandom mountBoard) ! 4)
         = Num (3310 / 9)
   \<and> targetY (pieces (initGame (Some \<lparr>img_width = Num 800, img_height = Num 600\<rparr>)
       (Some \<lparr>clientWidth = Num 1000, clientHeight = Num 700\<rparr>) EASY halfRandom mountBoard) ! 4)
         = Num (1505 / 6)"
proof -
  define st' where "st' = initGame (Some \<lparr>img_width = Num 800, img_height = Num 600\<rparr>)
       (Some \<lparr>clientWidth = Num 1000, clientHeight = Num 700\<rparr>) EASY halfRandom mountBoard"
  from initGame_geometry [of 800 600 1000 700 st' EASY halfRandom mountBoard 3]
  obtain bw bh where g: "boardSize st' = \<lparr>dim_w = Num bw, dim_h = Num bh\<rparr>"
      "0 < bw" "0 < bh" "bw / bh = 800 / 600" "bw \<le> 850" "bh \<le> 595" "bw = 850 \<or> bh = 595"
      "length (pieces st') = 9"
      "\<forall>i < 9. targetX (pieces st' ! i) = Num ((1000 - bw) / 2 + real (i mod 3) * (bw / 3))
             \<and> targetY (pieces st' ! i) = Num ((700 - bh) / 2 + real (i div 3) * (bh / 3))"
    by (auto simp: st'_def)
  from g(3,4) have bw: "bw = bh * 4 / 3" by (simp add: field_simps)
  with g(5,6,7) have bh: "bh = 595" by auto
  with bw have bw': "bw = 2380 / 3" by simp
  have t: "targetX (pieces st' ! 4) = Num ((1000 - bw) / 2 + real (4 mod 3) * (bw / 3))"
      "targetY (pieces st' ! 4) = Num ((700 - bh) / 2 + real (4 div 3) * (bh / 3))"
    using g(9) by simp_all
  have c1: "\<exists>bw bh. boardSize st' = \<lparr>dim_w = Num bw, dim_h = Num bh\<rparr>
       \<and> bw / bh = 800 / 600 \<and> bw \<le> 850 \<and> bh \<le> 595"
    using g(1,4,5,6) by blast
  have c2: "boardSize st' = \<lparr>dim_w = Num (2380 / 3), dim_h = Num 595\<rparr>"
    using g(1) by (simp add: bh bw')
  have c3: "targetX (pieces st' ! 4) = Num (3310 / 9)" "targetY (pieces st' ! 4) = Num (1505 / 6)"
    using t by (simp_all add: bh bw')
  show ?thesis
    unfolding st'_def [symmetric] using c1 c2 c3 g(8) by blast
qed

text \<open>
  Claim C9, as the code has it. \<open>initGame\<close> has no guard for a container of zero width
  or zero height: it still builds the \<open>n\<^sup>2\<close> pieces, on a board and with pieces of size
  0 by 0, every target being the centre of the container. With a zero height the
  quotient \<^verbatim>\<open>cw / ch\<close> is a division by zero, giving \<open>Infinity\<close> or \<open>NaN\<close>, and only chooses
  the branch.
\<close>

theorem initGame_degenerate:
  assumes "0 < iw" and "0 < ih" and "0 \<le> a" and "0 \<le> c" and "a = 0 \<or> c = 0"
    and "st' = initGame (Some \<lparr>img_width = Num iw, img_height = Num ih\<rparr>)
                 (Some \<lparr>clientWidth = Num a, clientHeight = Num c\<rparr>) difficulty rnd st"
    and "n = grid difficulty"
  shows "length (pieces st') = n * n
       \<and> boardSize st' = \<lparr>dim_w = Num 0, dim_h = Num 0\<rparr>
       \<and> pieceSize st' = \<lparr>dim_w = Num 0, dim_h = Num 0\<rparr>
       \<and> (\<forall>p \<in> set (pieces st').
             targetX p = Num (a / 2) \<and> targetY p = Num (c / 2)
           \<and> (\<exists>x y. currentX p = Num x \<and> currentY p = Num y))
       \<and> (c = 0 \<longrightarrow> Num a / Num c = (if a = 0 then NaN else PosInf))"
proof -
  have dims: "boardDims \<lparr>img_width = Num iw, img_height = Num ih\<rparr>
             \<lparr>clientWidth = Num a, clientHeight = Num c\<rparr> = \<lparr>dim_w = Num 0, dim_h = Num 0\<rparr>"
    using boardDims_degenerate [OF assms(1-5)] .
  have "targetX p = Num (a / 2) \<and> targetY p = Num (c / 2)
      \<and> (\<exists>x y. currentX p = Num x \<and> currentY p = Num y)" if "p \<in> set (pieces st')" for p
    using that initGame_Num [OF dims, of difficulty rnd st] assms(6,7)
    by (auto simp: set_scatter newPiece_def)
  then show ?thesis
    using initGame_Num [OF dims, of difficulty rnd st] assms(3,6,7)
    by (auto simp: length_scatter)
qed

theorem initGame_degenerate_witness:
  "length (pieces (initGame (Some \<lparr>img_width = Num 800, img_height = Num 600\<rparr>)
       (Some \<lparr>clientWidth = Num 1000, clientHeight = Num 0\<rparr>) EASY halfRandom mountBoard)) = 9
   \<and> pieceSize (initGame (Some \<lparr>img_width = Num 800, img_height = Num 600\<rparr>)
       (Some \<lparr>clientWidth = Num 1000, clientHeight = Num 0\<rparr>) EASY halfRandom mountBoard)
       = \<lparr>dim_w = Num 0, dim_h = Num 0\<rparr>
   \<and> Num 1000 / Num 0 = PosInf"
  using initGame_degenerate [of 800 600 1000 0 _ EASY halfRandom mountBoard 3]
  by simp

text \<open>
  For a container of size 0 by 0 the quotient \<^verbatim>\<open>cw / ch\<close> is \<open>0 / 0\<close> and the easy grid
  still gets its 9 pieces.
\<close>

theorem initGame_degenerate_counterexample:
  "Num 0 / Num 0 = NaN
   \<and> length (pieces (initGame (Some \<lparr>img_width = Num 800, img_height = Num 600\<rparr>)
       (Some \<lparr>clientWidth = Num 0, clientHeight = Num 0\<rparr>) EASY zeroRandom mountBoard)) = 9"
proof -
  have "boardDims \<lparr>img_width = Num 800, img_height = Num 600\<rparr>
          \<lparr>clientWidth = Num 0, clientHeight = Num 0\<rparr> = \<lparr>dim_w = Num 0, dim_h = Num 0\<rparr>"
    by (simp add: boardDims_def Let_def)
  from initGame_Num [OF this, of EASY zeroRandom mountBoard] show ?thesis
    by (simp add: length_scatter)
qed

section \<open>Picking and dragging\<close>

text \<open>
  Claim C4. In every reachable state, a piece that is locked is the same piece, in
  every field, after any sequence of pointer-down, pointer-move and release events; no
  such sequence fails.
\<close>

theorem locked_pieces_stay:
  assumes "reachable d st" and "i < length (pieces st)" and "isLocked (pieces st ! i)"
  shows "\<exists>st'. inputs evs st = Inr st' \<and> length (pieces st') = length (pieces st)
           \<and> pieces st' ! i = pieces st ! i"
  using inputs_inv [OF reachable_inv [OF assms(1)], of evs] assms(2,3)
  by (auto simp: lockedKept_def)

theorem locked_pieces_stay_witness:
  "isLocked (pieces playedBoard ! 8)
   \<and> (\<exists>st'. inputs [PointerDown (Some squareCanvas) (Num 780) (Num 780),
                    PointerMove (Some squareCanvas) (Num 5) (Num 5),
                    PointerUp 2000 zeroRandom] playedBoard = Inr st'
          \<and> pieces st' ! 8 = pieces playedBoard ! 8)"
  using locked_pieces_stay [OF reachable_playedBoard, of 8
      "[PointerDown (Some squareCanvas) (Num 780) (Num 780),
        PointerMove (Some squareCanvas) (Num 5) (Num 5),
        PointerUp 2000 zeroRandom]"] playedBoard_last
  by auto

text \<open>
  Claim C5, as the code has it. The hit test of \<^verbatim>\<open>handleStart\<close> is on the closed rectangle
  \<open>[currentX, currentX + pieceWidth] \<times> [currentY, currentY + pieceHeight]\<close>. With \<open>hits\<close> the
  unlocked pieces whose closed rectangle holds the canvas point: when there is none the
  state does not change; otherwise a hit piece of greatest \<open>zIndex\<close> among the hits becomes
  the active piece, the offset from its origin to the pointer is stored, and its
  \<open>zIndex\<close> becomes the maximum over all pieces plus one.
\<close>

theorem handleStart_picks_topmost:
  assumes "distinct (map id_piece (pieces st))"
    and "canvasPoint canvas clientX clientY = (x, y)"
    and "hits = {p \<in> set (pieces st). \<not> isLocked p
            \<and> currentX p \<le> x \<and> x \<le> currentX p + dim_w (pieceSize st)
            \<and> currentY p \<le> y \<and> y \<le> currentY p + dim_h (pieceSize st)}"
  shows "if hits = {} then handleStart (Some canvas) clientX clientY st = Inr st
         else (\<exists>r < length (pieces st). pieces st ! r \<in> hits
                 \<and> (\<forall>q \<in> hits. zIndex q \<le> zIndex (pieces st ! r))
                 \<and> handleStart (Some canvas) clientX clientY st =
                     Inr (st\<lparr>activePieceIndex := Some r,
                              dragOffset := \<lparr>pt_x = x - currentX (pieces st ! r),
                                             pt_y = y - currentY (pieces st ! r)\<rparr>,
                              pieces := (pieces st)[r := (pieces st ! r)
                                 \<lparr>zIndex := Max (set (map zIndex (pieces st))) + 1\<rparr>]\<rparr>))"
proof -
  have hits: "hits = {p \<in> set (pieces st). underPointer (pieceSize st) x y p}"
    using assms(3) by (simp add: underPointer_def)
  show ?thesis
  proof (cases "hits = {}")
    case True
    then have "\<forall>p \<in> set (pieces st). \<not> underPointer (pieceSize st) x y p"
      using hits by blast
    from handleStart_miss [OF assms(2) this] True show ?thesis by simp
  next
    case False
    then have "\<exists>p \<in> set (pieces st). underPointer (pieceSize st) x y p"
      using hits by blast
    from handleStart_hit [OF assms(1,2) this] False hits show ?thesis
      by (auto simp del: set_map)
  qed
qed

theorem handleStart_picks_topmost_witness:
  "handleStart (Some squareCanvas) (Num 10) (Num 10) freshBoard =
     Inr (freshBoard\<lparr>activePieceIndex := Some 8,
                      dragOffset := \<lparr>pt_x = Num 10, pt_y = Num 10\<rparr>,
                      pieces := (pieces freshBoard)[8 := (pieces freshBoard ! 8)\<lparr>zIndex := 9\<rparr>]\<rparr>)"
proof -
  define hits where "hits = {p \<in> set (pieces freshBoard). \<not> isLocked p
            \<and> currentX p \<le> Num 10 \<and> Num 10 \<le> currentX p + dim_w (pieceSize freshBoard)
            \<and> currentY p \<le> Num 10 \<and> Num 10 \<le> currentY p + dim_h (pieceSize freshBoard)}"
  have point: "canvasPoint squareCanvas (Num 10) (Num 10) = (Num 10, Num 10)"
    by (simp add: canvasPoint_def squareCanvas_def)
  have ids: "distinct (map id_piece (pieces freshBoard))"
    by (simp add: freshBoard_pieces comp_def)
  have nth: "zIndex (pieces freshBoard ! r) = int r \<and> currentX (pieces freshBoard ! r) = Num 0
      \<and> currentY (pieces freshBoard ! r) = Num 0" if "r < 9" for r
    using that by (simp add: freshBoard_pieces)
  have top: "pieces freshBoard ! 8 \<in> hits"
    by (simp add: hits_def freshBoard_fields) (simp add: freshBoard_pieces upt_rec)
  have maxz: "Max (set (map zIndex (pieces freshBoard))) = 8"
    by (simp add: freshBoard_pieces upt_rec)
  from handleStart_picks_topmost [OF ids point hits_def] top
  obtain r where r: "r < length (pieces freshBoard)"
      "\<forall>q \<in> hits. zIndex q \<le> zIndex (pieces freshBoard ! r)"
      "handleStart (Some squareCanvas) (Num 10) (Num 10) freshBoard =
         Inr (freshBoard\<lparr>activePieceIndex := Some r,
                dragOffset := \<lparr>pt_x = Num 10 - currentX (pieces freshBoard ! r),
                               pt_y = Num 10 - currentY (pieces freshBoard ! r)\<rparr>,
                pieces := (pieces freshBoard)[r := (pieces freshBoard ! r)
                   \<lparr>zIndex := Max (set (map zIndex (pieces freshBoard))) + 1\<rparr>]\<rparr>)"
    by (auto split: if_splits)
  have r9: "r < 9" using r(1) by (simp add: freshBoard_pieces)
  with r(2) top nth [of 8] nth [of r] have "r = 8" by fastforce
  with r(3) nth [of 8] maxz show ?thesis by simp
qed

text \<open>
  A pointer at \<open>x = 100\<close> on the right edge of a piece spanning \<open>[0, 100]\<close> is outside the
  half-open rectangle, and picks the piece.
\<close>

theorem handleStart_half_open_counterexample:
  "\<not> Num 100 < currentX (pieces edgeBoard ! 0) + dim_w (pieceSize edgeBoard)
   \<and> handleStart (Some squareCanvas) (Num 100) (Num 50) edgeBoard =
       Inr (edgeBoard\<lparr>activePieceIndex := Some 0,
                      dragOffset := \<lparr>pt_x = Num 100, pt_y = Num 50\<rparr>,
                      pieces := [\<lparr>id_piece = 0, row = 0, col = 0, currentX = Num 0,
                         currentY = Num 0, targetX = Num 200, targetY = Num 200,
                         isLocked = False, zIndex = 1\<rparr>]\<rparr>)"
  by (simp add: edgeBoard_def mountBoard_def handleStart_def canvasPoint_def squareCanvas_def
      underPointer_def Let_def)

section \<open>Effects\<close>

text \<open>
  Claim C8, as the code has it. In every reachable state the life of every particle is
  at most 1. A render tick at time \<open>now\<close> keeps exactly the effects younger than 1200 ms,
  in their order and with their position and start time, and lowers the life of each of
  their particles by 0.015, with no clamp at 0; so no effect of age 1200 ms or more is
  left after the tick. Only a release adds an effect, a new one stamped with the time of
  the release, at the end of the list: an effect that was removed does not come back.
\<close>

theorem effects_age_and_expire:
  assumes "reachable d st"
    and "st' = draw (Some canvas) (Some img) True now st"
    and "live = filter (\<lambda>eff. now - startTime eff < 1200) (effects st)"
  shows "(\<forall>eff \<in> set (effects st). \<forall>p \<in> set (particles eff). \<exists>l \<le> 1. life p = Num l)
       \<and> length (effects st') = length live
       \<and> (\<forall>j < length live.
             ex (effects st' ! j) = ex (live ! j) \<and> ey (effects st' ! j) = ey (live ! j)
           \<and> startTime (effects st' ! j) = startTime (live ! j)
           \<and> length (particles (effects st' ! j)) = length (particles (live ! j))
           \<and> (\<forall>k < length (particles (live ! j)).
                 life (particles (effects st' ! j) ! k) = life (particles (live ! j) ! k) - Num 0.015))
       \<and> (\<forall>eff \<in> set (effects st'). now - startTime eff < 1200)
       \<and> (\<forall>ev st2. input ev st = Inr st2 \<longrightarrow>
             effects st2 = effects st
           \<or> (\<exists>e t rnd. ev = PointerUp t rnd \<and> effects st2 = effects st @ [e] \<and> startTime e = t))"
proof -
  have eff: "effects st' = map (\<lambda>eff. eff\<lparr>particles := map ageParticle (particles eff)\<rparr>) live"
    using assms(2,3) by (simp add: draw_effects)
  have "\<forall>eff \<in> set (effects st). \<forall>p \<in> set (particles eff). \<exists>l \<le> 1. life p = Num l"
    using reachable_lifeBounded [OF assms(1)] by (simp add: lifeBounded_def)
  moreover have "\<forall>eff \<in> set (effects st'). now - startTime eff < 1200"
    using assms(3) by (auto simp: eff)
  moreover have "\<forall>ev st2. input ev st = Inr st2 \<longrightarrow>
             effects st2 = effects st
           \<or> (\<exists>e t rnd. ev = PointerUp t rnd \<and> effects st2 = effects st @ [e] \<and> startTime e = t)"
    using input_effects by blast
  ultimately show ?thesis
    by (simp add: eff ageParticle_def)
qed

theorem effects_age_and_expire_witness:
  "life (particles (effects (draw (Some squareCanvas) (Some squareImage) True 1016 playedBoard) ! 0) ! 0)
     = Num 0.985
   \<and> effects (draw (Some squareCanvas) (Some squareImage) True 2200 playedBoard) = []"
proof -
  obtain ps where ps: "effects playedBoard = [\<lparr>ex = Num 770, ey = Num 770, startTime = 1000, particles = ps\<rparr>]"
     "length ps = 25" "\<forall>p \<in> set ps. life p = Num 1"
    using playedBoard_effects by blast
  have first: "life (ps ! 0) = Num 1" using ps(2,3) by simp
  from effects_age_and_expire [OF reachable_playedBoard refl refl, of squareCanvas squareImage 1016]
  have "life (particles (effects (draw (Some squareCanvas) (Some squareImage) True 1016 playedBoard) ! 0) ! 0)
     = Num 0.985"
    using ps(2) first by (simp add: ps(1))
  moreover
  from effects_age_and_expire [OF reachable_playedBoard refl refl, of squareCanvas squareImage 2200]
  have "effects (draw (Some squareCanvas) (Some squareImage) True 2200 playedBoard) = []"
    by (simp add: ps(1))
  ultimately show ?thesis by simp
qed

text \<open>
  After 67 render ticks, 16 ms apart, the particles of the effect of \<open>playedBoard\<close> have
  the life \<open>1 - 67 \<times> 0.015 = -0.005\<close>, below 0, while the effect is still live.
\<close>

theorem particle_life_counterexample:
  "life (particles (effects (frames everySixteen playedBoard) ! 0) ! 0) = Num (- 0.005)"
proof -
  obtain ps where ps: "effects playedBoard = [\<lparr>ex = Num 770, ey = Num 770, startTime = 1000, particles = ps\<rparr>]"
     "length ps = 25" "\<forall>p \<in> set ps. life p = Num 1"
    using playedBoard_effects by blast
  have "\<forall>t \<in> set everySixteen. \<forall>eff \<in> set (effects playedBoard). t - startTime eff < 1200"
    by (auto simp: everySixteen_def ps(1))
  from frames_effects [OF this] have
    "effects (frames everySixteen playedBoard) =
       [\<lparr>ex = Num 770, ey = Num 770, startTime = 1000, particles = map (ageParticle ^^ 67) ps\<rparr>]"
    by (simp add: ps(1) everySixteen_def)
  moreover have "life (ps ! 0) = Num 1" using ps(2,3) by simp
  ultimately show ?thesis
    using ps(2) life_funpow [of "ps ! 0" 1 67] by simp
qed

section \<open>The solved notification\<close>

text \<open>
  Claim C3, as the code has it. In every reachable state: a pointer event never calls
  \<^verbatim>\<open>onSolved\<close> itself, and it schedules a timer exactly when it is a release after which
  all pieces are locked and before which they were not, the timer being due 800 ms after
  that release; the release of a piece within the tolerance of its target, all other
  pieces being locked, is such a release. Once all pieces are locked, no pointer event
  changes the state, and over any sequence of pointer events, animation frames and runs
  of the timer queue no timer is added and \<^verbatim>\<open>onSolved\<close> is called once for each pending
  timer at or after whose due time the queue ran, and for no other. A re-initialization
  leaves the pending timers as they are: nothing cancels a timer.
\<close>

theorem solved_timer:
  assumes "reachable d st"
  shows "(\<forall>ev st'. input ev st = Inr st' \<longrightarrow>
            solvedFired st' = solvedFired st
          \<and> solvedTimers st' =
              (case ev of
                 PointerUp now rnd \<Rightarrow>
                   (if \<not> list_all isLocked (pieces st) \<and> list_all isLocked (pieces st')
                    then solvedTimers st @ [now + 800] else solvedTimers st)
               | _ \<Rightarrow> solvedTimers st))
       \<and> (\<forall>i now rnd.
             activePieceIndex st = Some i
           \<and> dist (pieces st ! i) < dim_w (pieceSize st) * Num 0.25
           \<and> (\<forall>j < length (pieces st). j \<noteq> i \<longrightarrow> isLocked (pieces st ! j))
           \<longrightarrow> (\<exists>st'. handleEnd now rnd st = Inr st' \<and> list_all isLocked (pieces st')
                  \<and> solvedTimers st' = solvedTimers st @ [now + 800]))
       \<and> (list_all isLocked (pieces st) \<longrightarrow>
             (\<forall>evs. inputs evs st = Inr st)
           \<and> (\<forall>steps. \<exists>st'. run steps st = Inr st' \<and> pieces st' = pieces st
                 \<and> solvedFired st' =
                     solvedFired st + length (filter (firedBy steps) (solvedTimers st))
                 \<and> solvedTimers st' = filter (\<lambda>t. \<not> firedBy steps t) (solvedTimers st)))
       \<and> (\<forall>imgObj containerRef rnd.
             solvedTimers (initGame imgObj containerRef d rnd st) = solvedTimers st
           \<and> solvedFired (initGame imgObj containerRef d rnd st) = solvedFired st)"
proof -
  note inv = reachable_inv [OF assms]
  have c1: "\<forall>ev st'. input ev st = Inr st' \<longrightarrow>
            solvedFired st' = solvedFired st
          \<and> solvedTimers st' =
              (case ev of
                 PointerUp now rnd \<Rightarrow>
                   (if \<not> list_all isLocked (pieces st) \<and> list_all isLocked (pieces st')
                    then solvedTimers st @ [now + 800] else solvedTimers st)
               | _ \<Rightarrow> solvedTimers st)"
    using input_timers_exact [OF inv] by blast
  have c2: "\<forall>i now rnd.
             activePieceIndex st = Some i
           \<and> dist (pieces st ! i) < dim_w (pieceSize st) * Num 0.25
           \<and> (\<forall>j < length (pieces st). j \<noteq> i \<longrightarrow> isLocked (pieces st ! j))
           \<longrightarrow> (\<exists>st'. handleEnd now rnd st = Inr st' \<and> list_all isLocked (pieces st')
                  \<and> solvedTimers st' = solvedTimers st @ [now + 800])"
  proof (intro allI impI)
    fix i now rnd
    assume h: "activePieceIndex st = Some i
           \<and> dist (pieces st ! i) < dim_w (pieceSize st) * Num 0.25
           \<and> (\<forall>j < length (pieces st). j \<noteq> i \<longrightarrow> isLocked (pieces st ! j))"
    then have "i < length (pieces st)" using inv by (simp add: boardInv_def)
    with h show "\<exists>st'. handleEnd now rnd st = Inr st' \<and> list_all isLocked (pieces st')
                  \<and> solvedTimers st' = solvedTimers st @ [now + 800]"
      using handleEnd_completes [of st i now rnd] by blast
  qed
  have c3: "list_all isLocked (pieces st) \<longrightarrow>
             (\<forall>evs. inputs evs st = Inr st)
           \<and> (\<forall>steps. \<exists>st'. run steps st = Inr st' \<and> pieces st' = pieces st
                 \<and> solvedFired st' =
                     solvedFired st + length (filter (firedBy steps) (solvedTimers st))
                 \<and> solvedTimers st' = filter (\<lambda>t. \<not> firedBy steps t) (solvedTimers st))"
    using inputs_all_locked [OF inv] run_all_locked [OF inv] by blast
  show ?thesis using c1 c2 c3 initGame_timers by blast
qed

theorem solved_timer_witness:
  "solvedTimers nearlySolved = []
   \<and> handleEnd 1800 zeroRandom nearlySolved = Inr solvedBoard
   \<and> list_all isLocked (pieces solvedBoard)
   \<and> solvedTimers solvedBoard = [2600]
   \<and> inputs [PointerDown (Some squareCanvas) (Num 260) (Num 260), PointerUp 2000 zeroRandom]
        solvedBoard = Inr solvedBoard
   \<and> (\<exists>st'. run [Pointer (PointerDown (Some squareCanvas) (Num 260) (Num 260)),
                  Timers 2599] solvedBoard = Inr st'
          \<and> solvedFired st' = 0 \<and> solvedTimers st' = [2600])
   \<and> (\<exists>st'. run [Timers 2599, Frame (Some squareCanvas) (Some squareImage) True 2600,
                  Timers 2600, Pointer (PointerUp 2700 zeroRandom), Timers 3000] solvedBoard
            = Inr st'
          \<and> solvedFired st' = 1 \<and> solvedTimers st' = [])"
proof -
  note near = solved_timer [OF conjunct1 [OF nearlySolved_facts]]
  note solved = solved_timer [OF reachable_solvedBoard]
  from near nearlySolved_facts
  have "\<exists>st'. handleEnd 1800 zeroRandom nearlySolved = Inr st' \<and> list_all isLocked (pieces st')
           \<and> solvedTimers st' = solvedTimers nearlySolved @ [1800 + 800]"
    by blast
  then have last: "list_all isLocked (pieces solvedBoard)" "solvedTimers solvedBoard = [2600]"
    using nearlySolved_facts by auto
  from solved last(1) have idle: "inputs [PointerDown (Some squareCanvas) (Num 260) (Num 260),
        PointerUp 2000 zeroRandom] solvedBoard = Inr solvedBoard"
    by blast
  have fired0: "solvedFired solvedBoard = 0" using solvedBoard_facts by simp
  from solved last(1) obtain s1 where s1: "run [Pointer (PointerDown (Some squareCanvas) (Num 260) (Num 260)),
                  Timers 2599] solvedBoard = Inr s1"
      "solvedFired s1 = solvedFired solvedBoard + length (filter (firedBy
          [Pointer (PointerDown (Some squareCanvas) (Num 260) (Num 260)), Timers 2599])
          (solvedTimers solvedBoard))"
      "solvedTimers s1 = filter (\<lambda>t. \<not> firedBy
          [Pointer (PointerDown (Some squareCanvas) (Num 260) (Num 260)), Timers 2599] t)
          (solvedTimers solvedBoard)"
    by blast
  from solved last(1) obtain s2 where s2: "run [Timers 2599, Frame (Some squareCanvas) (Some squareImage) True 2600,
                  Timers 2600, Pointer (PointerUp 2700 zeroRandom), Timers 3000] solvedBoard = Inr s2"
      "solvedFired s2 = solvedFired solvedBoard + length (filter (firedBy
          [Timers 2599, Frame (Some squareCanvas) (Some squareImage) True 2600,
                  Timers 2600, Pointer (PointerUp 2700 zeroRandom), Timers 3000])
          (solvedTimers solvedBoard))"
      "solvedTimers s2 = filter (\<lambda>t. \<not> firedBy
          [Timers 2599, Frame (Some squareCanvas) (Some squareImage) True 2600,
                  Timers 2600, Pointer (PointerUp 2700 zeroRandom), Timers 3000] t)
          (solvedTimers solvedBoard)"
    by blast
  have r1: "solvedFired s1 = 0 \<and> solvedTimers s1 = [2600]"
    using s1(2,3) by (simp add: last(2) fired0 firedBy_simps)
  have r2: "solvedFired s2 = 1 \<and> solvedTimers s2 = []"
    using s2(2,3) by (simp add: last(2) fired0 firedBy_simps)
  show ?thesis
    using nearlySolved_facts last idle s1(1) r1 s2(1) r2 by blast
qed

text \<open>
  The board is solved by the release at time 1800, which schedules the timer for 2600;
  a resize re-initializes the board before that; at 2600 the timer calls \<^verbatim>\<open>onSolved\<close> on a
  board whose pieces are not all locked.
\<close>

theorem solved_timer_counterexample:
  "solvedFired (initGame (Some squareImage) (Some squareContainer) EASY zeroRandom solvedBoard) = 0
   \<and> solvedFired (fireTimers 2600
        (initGame (Some squareImage) (Some squareContainer) EASY zeroRandom solvedBoard)) = 1
   \<and> \<not> list_all isLocked (pieces (fireTimers 2600
        (initGame (Some squareImage) (Some squareContainer) EASY zeroRandom solvedBoard)))"
proof -
  have "pieces (initGame (Some squareImage) (Some squareContainer) EASY zeroRandom solvedBoard)
          = pieces freshBoard"
    by (simp add: initGame_def freshBoard_def Let_def)
  then show ?thesis
    using solvedBoard_facts
    by (simp add: initGame_timers fireTimers_def freshBoard_pieces upt9)
qed

end
